theory Spec2Isabelle
  imports Complex_Main
begin

section \<open>Data model (types.ts)\<close>

text \<open>
  JavaScript numbers that hold coordinates and scores are modelled as exact reals;
  page indexes, list positions and timestamps as naturals; sequence numbers as integers.
  An optional field \<open>f?: T\<close> is a \<open>T option\<close>, \<open>None\<close> standing for \<open>undefined\<close>.
\<close>

datatype GradingMode = Content | Communicative | Organisation | Language | General | Select | Stamper

datatype AnnotationType = Dot | RectType | Stamp

record Point =
  pt_x :: real
  pt_y :: real

record Rect =
  rect_x :: real
  rect_y :: real
  rect_width :: real
  rect_height :: real

record StudentScore =
  content :: real
  communicative :: real
  organisation :: real
  language :: real

record StampData =
  stamp_scores :: StudentScore
  total :: real
  grader :: string
  date :: string

record Annotation =
  ann_id :: string
  mode :: GradingMode
  pageIndex :: nat
  ann_type :: AnnotationType
  ann_x :: "real option"
  ann_y :: "real option"
  rects :: "Rect list option"
  ann_text :: "string option"
  code :: "string option"
  correction :: "string option"
  number :: "int option"
  isElaboration :: "bool option"
  stampData :: "StampData option"

record Justifications =
  just_content :: string
  just_communicative :: string
  just_organisation :: string
  just_language :: string

record Student =
  student_id :: string
  name :: string
  images :: "string list"
  annotations :: "Annotation list"
  scores :: StudentScore
  justifications :: Justifications
  timeSpent :: real

record HistoryEntry =
  past :: "Annotation list list"
  future :: "Annotation list list"

section \<open>Interaction session state (useAnnotationCanvas.ts)\<close>

datatype InteractionMode = NoInteraction | Creating | Moving | Resizing | Panning | Selecting | MovingMulti

datatype ResizeHandle = NW | SW | NE | SE

datatype Step = Setup | Task | Grading | Report

text \<open>A value of \<open>Record<string, Point | Rect[]>\<close>.\<close>

datatype Geometry = GPoint Point | GRects "Rect list"

record ScrollOffset =
  scroll_left :: real
  scroll_top :: real

record DragSnapshot =
  startPoint :: Point
  initialRect :: "Rect option"
  initialDot :: "Point option"
  annotationId :: "string option"
  rectIndex :: "nat option"
  handle :: "ResizeHandle option"
  clientStart :: "Point option"
  initialScroll :: "ScrollOffset option"
  initialMultiPositions :: "(string \<rightharpoonup> Geometry) option"

text \<open>
  The state of the two hooks \<open>useGradingSession\<close> and \<open>useAnnotationCanvas\<close>, as far
  as the annotation and history engine reads or writes it. The three fields of
  \<open>historyRefs.current\<close> are flattened into the record; \<open>typingTimeout\<close> holds the
  deadline (in milliseconds) of the pending idle timer, \<open>None\<close> when no timer is pending.
\<close>

record State =
  students :: "Student list"
  currentStudentIndex :: nat
  currentImageIndex :: nat
  activeMode :: GradingMode
  history :: "string \<rightharpoonup> HistoryEntry"
  typingTimeout :: "nat option"
  isTyping :: bool
  dragStartSnapshot :: "Annotation list option"
  sessionId :: "string option"
  graderName :: "string option"
  step :: Step
  interactionMode :: InteractionMode
  dragSnapshot :: "DragSnapshot option"
  creationDragCurrent :: "Point option"
  editingAnnotationId :: "string option"
  newAnnotationId :: "string option"
  selectedIds :: "string list"
  selectionBox :: "Rect option"
  scrollContainer :: "ScrollOffset option"

section \<open>History engine (useGradingSession)\<close>

text \<open>JavaScript truthiness of an optional string: \<open>undefined\<close>, \<open>null\<close> and \<open>""\<close> are falsy.\<close>

definition truthy :: "string option \<Rightarrow> bool" where
  "truthy s = (case s of None \<Rightarrow> False | Some v \<Rightarrow> v \<noteq> [])"

text \<open>\<open>JSON.parse(JSON.stringify(v))\<close>: a deep copy; values are immutable here.\<close>

definition json_clone :: "'a \<Rightarrow> 'a" where
  "json_clone v = v"

text \<open>Decimal rendering of an index inside a template literal.\<close>

fun string_of_nat :: "nat \<Rightarrow> string" where
  "string_of_nat n =
     (if n < 10 then [''0123456789'' ! n]
      else string_of_nat (n div 10) @ [''0123456789'' ! (n mod 10)])"

declare string_of_nat.simps [simp del]

definition currentStudent :: "State \<Rightarrow> Student option" where
  "currentStudent st =
     (if currentStudentIndex st < length (students st)
      then Some (students st ! currentStudentIndex st) else None)"

definition historyKey :: "State \<Rightarrow> string option" where
  "historyKey st =
     (case currentStudent st of
        None \<Rightarrow> None
      | Some s \<Rightarrow> Some (student_id s @ ''-'' @ string_of_nat (currentImageIndex st)))"

definition entry_or_empty :: "HistoryEntry option \<Rightarrow> HistoryEntry" where
  "entry_or_empty e = (case e of None \<Rightarrow> \<lparr>past = [], future = []\<rparr> | Some v \<Rightarrow> v)"

definition onPage :: "nat \<Rightarrow> Annotation \<Rightarrow> bool" where
  "onPage p a = (pageIndex a = p)"

definition recordHistory :: "State \<Rightarrow> State" where
  "recordHistory st =
     (case currentStudent st of
        None \<Rightarrow> st
      | Some cs \<Rightarrow>
         (case historyKey st of
            None \<Rightarrow> st
          | Some k \<Rightarrow>
             (let currentPageAnns = filter (onPage (currentImageIndex st)) (annotations cs);
                  entry = entry_or_empty (history st k)
              in st\<lparr>history := (history st)(k \<mapsto>
                     \<lparr>past = past entry @ [json_clone currentPageAnns], future = []\<rparr>)\<rparr>)))"

definition performUndo :: "State \<Rightarrow> State" where
  "performUndo st =
     (case currentStudent st of
        None \<Rightarrow> st
      | Some cs \<Rightarrow>
         (case historyKey st of
            None \<Rightarrow> st
          | Some k \<Rightarrow>
             (case history st k of
                None \<Rightarrow> st
              | Some entry \<Rightarrow>
                 if past entry = [] then st
                 else
                   (let newPast = butlast (past entry);
                        previousPageAnns = last (past entry);
                        currentPageAnns = filter (onPage (currentImageIndex st)) (annotations cs)
                    in st\<lparr>history := (history st)(k \<mapsto>
                             \<lparr>past = newPast,
                              future = json_clone currentPageAnns # future entry\<rparr>),
                          students := map (\<lambda>s.
                             if student_id s \<noteq> student_id cs then s
                             else s\<lparr>annotations :=
                                    filter (\<lambda>a. \<not> onPage (currentImageIndex st) a) (annotations s)
                                    @ previousPageAnns\<rparr>)
                           (students st)\<rparr>))))"

definition performRedo :: "State \<Rightarrow> State" where
  "performRedo st =
     (case currentStudent st of
        None \<Rightarrow> st
      | Some cs \<Rightarrow>
         (case historyKey st of
            None \<Rightarrow> st
          | Some k \<Rightarrow>
             (case history st k of
                None \<Rightarrow> st
              | Some entry \<Rightarrow>
                 if future entry = [] then st
                 else
                   (let newFuture = tl (future entry);
                        nextPageAnns = hd (future entry);
                        currentPageAnns = filter (onPage (currentImageIndex st)) (annotations cs)
                    in st\<lparr>history := (history st)(k \<mapsto>
                             \<lparr>past = past entry @ [json_clone currentPageAnns],
                              future = newFuture\<rparr>),
                          students := map (\<lambda>s.
                             if student_id s \<noteq> student_id cs then s
                             else s\<lparr>annotations :=
                                    filter (\<lambda>a. \<not> onPage (currentImageIndex st) a) (annotations s)
                                    @ nextPageAnns\<rparr>)
                           (students st)\<rparr>))))"

text \<open>The entry the screen shows for the current page key (\<open>currentHistory\<close>).\<close>

definition currentHistory :: "State \<Rightarrow> HistoryEntry" where
  "currentHistory st =
     (case historyKey st of
        None \<Rightarrow> \<lparr>past = [], future = []\<rparr>
      | Some k \<Rightarrow> entry_or_empty (history st k))"

text \<open>
  \<open>Partial<Annotation>\<close>: each key is absent (\<open>None\<close>) or carries the value that
  replaces the field; for an optional field the carried value may itself be \<open>undefined\<close>.
\<close>

record AnnotationPatch =
  upd_id :: "string option"
  upd_mode :: "GradingMode option"
  upd_pageIndex :: "nat option"
  upd_type :: "AnnotationType option"
  upd_x :: "real option option"
  upd_y :: "real option option"
  upd_rects :: "Rect list option option"
  upd_text :: "string option option"
  upd_code :: "string option option"
  upd_correction :: "string option option"
  upd_number :: "int option option"
  upd_isElaboration :: "bool option option"
  upd_stampData :: "StampData option option"

definition or_keep :: "'a option \<Rightarrow> 'a \<Rightarrow> 'a" where
  "or_keep u v = (case u of None \<Rightarrow> v | Some w \<Rightarrow> w)"

text \<open>The object spread \<open>{ ...a, ...updates }\<close>.\<close>

definition merge_updates :: "Annotation \<Rightarrow> AnnotationPatch \<Rightarrow> Annotation" where
  "merge_updates a u =
     \<lparr>ann_id = or_keep (upd_id u) (ann_id a),
      mode = or_keep (upd_mode u) (mode a),
      pageIndex = or_keep (upd_pageIndex u) (pageIndex a),
      ann_type = or_keep (upd_type u) (ann_type a),
      ann_x = or_keep (upd_x u) (ann_x a),
      ann_y = or_keep (upd_y u) (ann_y a),
      rects = or_keep (upd_rects u) (rects a),
      ann_text = or_keep (upd_text u) (ann_text a),
      code = or_keep (upd_code u) (code a),
      correction = or_keep (upd_correction u) (correction a),
      number = or_keep (upd_number u) (number a),
      isElaboration = or_keep (upd_isElaboration u) (isElaboration a),
      stampData = or_keep (upd_stampData u) (stampData a)\<rparr>"

text \<open>\<open>prev.map((s, idx) => idx === i ? f(s) : s)\<close>.\<close>

definition map_student_at :: "nat \<Rightarrow> (Student \<Rightarrow> Student) \<Rightarrow> Student list \<Rightarrow> Student list" where
  "map_student_at i f ss = map (\<lambda>(idx, s). if idx = i then f s else s) (enumerate 0 ss)"

definition addAnnotation :: "Annotation \<Rightarrow> bool \<Rightarrow> State \<Rightarrow> State" where
  "addAnnotation ann record st =
     (let st1 = (if record then recordHistory st else st)
      in st1\<lparr>students := map_student_at (currentStudentIndex st)
                 (\<lambda>s. s\<lparr>annotations := annotations s @ [ann]\<rparr>) (students st1)\<rparr>)"

text \<open>
  The idle timer of \<open>updateAnnotation\<close>: \<open>setTimeout(() => isTyping = false, 1000)\<close>.
  Time is an explicit millisecond clock; a pending timer whose deadline has been reached
  runs its callback before the next call is handled.
\<close>

definition fire_timers :: "nat \<Rightarrow> State \<Rightarrow> State" where
  "fire_timers now st =
     (case typingTimeout st of
        None \<Rightarrow> st
      | Some deadline \<Rightarrow>
          if deadline \<le> now then st\<lparr>isTyping := False, typingTimeout := None\<rparr> else st)"

definition updateAnnotation :: "nat \<Rightarrow> string \<Rightarrow> AnnotationPatch \<Rightarrow> State \<Rightarrow> State" where
  "updateAnnotation now i updates st0 =
     (let st = fire_timers now st0;
          st1 = (if \<not> isTyping st then (recordHistory st)\<lparr>isTyping := True\<rparr> else st);
          st2 = st1\<lparr>typingTimeout := Some (now + 1000)\<rparr>
      in st2\<lparr>students := map_student_at (currentStudentIndex st)
                 (\<lambda>s. s\<lparr>annotations :=
                        map (\<lambda>a. if ann_id a = i then merge_updates a updates else a) (annotations s)\<rparr>)
                 (students st2)\<rparr>)"

definition deleteAnnotation :: "string \<Rightarrow> State \<Rightarrow> State" where
  "deleteAnnotation i st =
     (let st1 = recordHistory st
      in st1\<lparr>students := map_student_at (currentStudentIndex st)
                 (\<lambda>s. s\<lparr>annotations := filter (\<lambda>a. ann_id a \<noteq> i) (annotations s)\<rparr>)
                 (students st1)\<rparr>)"

definition deleteAnnotations :: "string list \<Rightarrow> State \<Rightarrow> State" where
  "deleteAnnotations ids st =
     (if length ids = 0 then st
      else
        (let st1 = recordHistory st
         in st1\<lparr>students := map_student_at (currentStudentIndex st)
                    (\<lambda>s. s\<lparr>annotations := filter (\<lambda>a. ann_id a \<notin> set ids) (annotations s)\<rparr>)
                    (students st1)\<rparr>))"

datatype ScoreCategory = ScoreContent | ScoreCommunicative | ScoreOrganisation | ScoreLanguage

definition set_score :: "ScoreCategory \<Rightarrow> real \<Rightarrow> StudentScore \<Rightarrow> StudentScore" where
  "set_score category val sc =
     (case category of
        ScoreContent \<Rightarrow> sc\<lparr>content := val\<rparr>
      | ScoreCommunicative \<Rightarrow> sc\<lparr>communicative := val\<rparr>
      | ScoreOrganisation \<Rightarrow> sc\<lparr>organisation := val\<rparr>
      | ScoreLanguage \<Rightarrow> sc\<lparr>language := val\<rparr>)"

definition updateScore :: "ScoreCategory \<Rightarrow> real \<Rightarrow> State \<Rightarrow> State" where
  "updateScore category val st =
     st\<lparr>students := map_student_at (currentStudentIndex st)
           (\<lambda>s. s\<lparr>scores := set_score category val (scores s)\<rparr>) (students st)\<rparr>"

subsection \<open>Merging and splitting students\<close>

text \<open>
  Both merges and the split read \<open>updated[currentStudentIndex]\<close> and its neighbour; where
  one of them does not exist the source throws inside the updater, and the model leaves
  the state as it was.
\<close>

definition shift_pages :: "nat \<Rightarrow> Annotation list \<Rightarrow> Annotation list" where
  "shift_pages n anns = map (\<lambda>ann. ann\<lparr>pageIndex := pageIndex ann + n\<rparr>) anns"

definition mergeNextStudent :: "State \<Rightarrow> State" where
  "mergeNextStudent st =
     (let i = currentStudentIndex st; ss = students st in
      if i + 1 \<ge> length ss then st
      else
        (let current = ss ! i;
             next = ss ! (i + 1);
             currentImageCount = length (images current);
             adjustedAnnotations = shift_pages currentImageCount (annotations next);
             merged = current\<lparr>images := images current @ images next,
                              annotations := annotations current @ adjustedAnnotations\<rparr>
         in st\<lparr>students := take (i + 1) (ss[i := merged]) @ drop (i + 2) ss\<rparr>))"

definition mergeWithPrevious :: "State \<Rightarrow> State" where
  "mergeWithPrevious st =
     (let i = currentStudentIndex st; ss = students st in
      if i = 0 then st
      else if i \<ge> length ss then st
      else
        (let previous = ss ! (i - 1);
             current = ss ! i;
             prevImageCount = length (images previous);
             adjustedAnnotations = shift_pages prevImageCount (annotations current);
             merged = previous\<lparr>images := images previous @ images current,
                               annotations := annotations current @ adjustedAnnotations\<rparr>;
             prevLength = length (images (ss ! (i - 1)))
         in st\<lparr>students := take i (ss[i - 1 := merged]) @ drop (i + 1) ss,
               currentStudentIndex := i - 1,
               currentImageIndex := prevLength\<rparr>))"

text \<open>
  \<open>fresh\<close> is the value of \<open>(Date.now() + Math.random()).toString()\<close> at the call.
\<close>

definition splitStudentAtPage :: "string \<Rightarrow> State \<Rightarrow> State" where
  "splitStudentAtPage fresh st =
     (let i = currentStudentIndex st; p = currentImageIndex st; ss = students st in
      if p = 0 then st
      else if i \<ge> length ss then st
      else
        (let current = ss ! i;
             keptImages = take p (images current);
             movedImages = drop p (images current);
             keptAnnotations = filter (\<lambda>a. pageIndex a < p) (annotations current);
             movedAnnotations =
               map (\<lambda>a. a\<lparr>pageIndex := pageIndex a - p\<rparr>)
                 (filter (\<lambda>a. pageIndex a \<ge> p) (annotations current));
             newStudent = current\<lparr>student_id := fresh,
                                  name := name current @ '' (Part 2)'',
                                  images := movedImages,
                                  annotations := movedAnnotations,
                                  scores := \<lparr>content = 0, communicative = 0,
                                             organisation = 0, language = 0\<rparr>,
                                  justifications := \<lparr>just_content = [], just_communicative = [],
                                             just_organisation = [], just_language = []\<rparr>,
                                  timeSpent := 0\<rparr>;
             kept = current\<lparr>images := keptImages, annotations := keptAnnotations\<rparr>
         in st\<lparr>students := take (i + 1) (ss[i := kept]) @ [newStudent] @ drop (i + 1) ss,
               currentStudentIndex := i + 1,
               currentImageIndex := 0\<rparr>))"

section \<open>Pointer handlers (useAnnotationCanvas)\<close>

text \<open>
  A pointer event together with what the handler reads from its environment while it
  runs: the bounding box of the canvas element (\<open>None\<close> when \<open>canvasRef.current\<close> is
  null), the identifier \<open>(Date.now() + Math.random()).toString()\<close> and the formatted date.
\<close>

record DOMRect =
  dom_left :: real
  dom_top :: real
  dom_width :: real
  dom_height :: real

record MouseEvent =
  button :: nat
  shiftKey :: bool
  ctrlKey :: bool
  metaKey :: bool
  clientX :: real
  clientY :: real
  canvasRect :: "DOMRect option"
  freshId :: string
  today :: string

definition clamp :: "real \<Rightarrow> real \<Rightarrow> real \<Rightarrow> real" where
  "clamp val lo hi = max lo (min hi val)"

definition getRelativePoint :: "MouseEvent \<Rightarrow> Point" where
  "getRelativePoint e =
     (case canvasRect e of
        None \<Rightarrow> \<lparr>pt_x = 0, pt_y = 0\<rparr>
      | Some r \<Rightarrow>
          \<lparr>pt_x = clamp ((clientX e - dom_left r) / dom_width r) 0 1,
           pt_y = clamp ((clientY e - dom_top r) / dom_height r) 0 1\<rparr>)"

definition snapshot_at :: "Point \<Rightarrow> DragSnapshot" where
  "snapshot_at pt =
     \<lparr>startPoint = pt, initialRect = None, initialDot = None, annotationId = None,
      rectIndex = None, handle = None, clientStart = None, initialScroll = None,
      initialMultiPositions = None\<rparr>"

definition find_annotation :: "string \<Rightarrow> Annotation list \<Rightarrow> Annotation option" where
  "find_annotation i anns = List.find (\<lambda>a. ann_id a = i) anns"

text \<open>
  Annotations are taken to be well formed for their type: a dot or a stamp carries both
  coordinates and a rect carries its rectangle list. Where the source asserts this
  (\<open>a.x!\<close>) the model reads a missing coordinate as 0.
\<close>

definition coord :: "real option \<Rightarrow> real" where
  "coord c = (case c of None \<Rightarrow> 0 | Some v \<Rightarrow> v)"

definition rects_or_empty :: "Rect list option \<Rightarrow> Rect list" where
  "rects_or_empty rs = (case rs of None \<Rightarrow> [] | Some v \<Rightarrow> v)"

text \<open>\<open>ann?.rects?.[rectIndex]\<close>.\<close>

definition rect_at :: "Annotation option \<Rightarrow> nat \<Rightarrow> Rect option" where
  "rect_at ann i =
     (case ann of
        None \<Rightarrow> None
      | Some a \<Rightarrow>
         (case rects a of
            None \<Rightarrow> None
          | Some rs \<Rightarrow> if i < length rs then Some (rs ! i) else None))"

definition pageAnnotations :: "State \<Rightarrow> Annotation list" where
  "pageAnnotations st =
     (case currentStudent st of
        None \<Rightarrow> []
      | Some cs \<Rightarrow> filter (onPage (currentImageIndex st)) (annotations cs))"

subsection \<open>Pointer down\<close>

definition or_default :: "string option \<Rightarrow> string \<Rightarrow> string" where
  "or_default s d = (case s of None \<Rightarrow> d | Some v \<Rightarrow> if v = [] then d else v)"

text \<open>
  Where a branch reads \<open>students[currentStudentIndex]\<close> or \<open>currentStudent.scores\<close>
  and there is no current student, the source throws a TypeError; the model stops the
  handler there and keeps the state reached so far.
\<close>

definition down_stamp :: "MouseEvent \<Rightarrow> Point \<Rightarrow> State \<Rightarrow> State" where
  "down_stamp e pt st =
     (case currentStudent st of
        None \<Rightarrow> st
      | Some cs \<Rightarrow>
         (let currentTotal = content (scores cs) + communicative (scores cs)
                           + organisation (scores cs) + language (scores cs);
              newAnnotation =
                \<lparr>ann_id = freshId e, mode = Stamper, pageIndex = currentImageIndex st,
                 ann_type = Stamp, ann_x = Some (pt_x pt), ann_y = Some (pt_y pt),
                 rects = None, ann_text = None, code = None, correction = None,
                 number = None, isElaboration = None,
                 stampData = Some \<lparr>stamp_scores = scores cs, total = currentTotal,
                                   grader = or_default (graderName st) ''Teacher'',
                                   date = today e\<rparr>\<rparr>
          in (addAnnotation newAnnotation True st)\<lparr>interactionMode := NoInteraction\<rparr>))"

definition initialGeometry :: "Annotation \<Rightarrow> Geometry" where
  "initialGeometry a =
     (case ann_type a of
        Dot \<Rightarrow> GPoint \<lparr>pt_x = coord (ann_x a), pt_y = coord (ann_y a)\<rparr>
      | RectType \<Rightarrow> GRects (json_clone (rects_or_empty (rects a)))
      | Stamp \<Rightarrow> GPoint \<lparr>pt_x = coord (ann_x a), pt_y = coord (ann_y a)\<rparr>)"

definition buildMultiPositions :: "string list \<Rightarrow> Annotation list \<Rightarrow> (string \<rightharpoonup> Geometry)" where
  "buildMultiPositions newSelection anns =
     foldl (\<lambda>m a. if ann_id a \<in> set newSelection then m(ann_id a \<mapsto> initialGeometry a) else m)
       Map.empty anns"

definition down_select :: "string option \<Rightarrow> Point \<Rightarrow> State \<Rightarrow> State" where
  "down_select annId pt st =
     (if truthy annId then
        (let i = or_default annId [];
             isAlreadySelected = (i \<in> set (selectedIds st));
             newSelection = (if isAlreadySelected then selectedIds st else [i]);
             st2 = st\<lparr>selectedIds := newSelection, interactionMode := MovingMulti\<rparr>
         in case currentStudent st of
              None \<Rightarrow> st2
            | Some cs \<Rightarrow>
                st2\<lparr>dragSnapshot := Some ((snapshot_at pt)\<lparr>initialMultiPositions :=
                       Some (buildMultiPositions newSelection (annotations cs))\<rparr>)\<rparr>)
      else st\<lparr>interactionMode := Selecting, dragSnapshot := Some (snapshot_at pt),
              selectedIds := []\<rparr>)"

definition down_resize :: "string \<Rightarrow> nat \<Rightarrow> ResizeHandle \<Rightarrow> Point \<Rightarrow> State \<Rightarrow> State" where
  "down_resize i r h pt st =
     (case currentStudent st of
        None \<Rightarrow> st
      | Some cs \<Rightarrow>
         (case rect_at (find_annotation i (annotations cs)) r of
            None \<Rightarrow> st
          | Some ir \<Rightarrow>
              st\<lparr>interactionMode := Resizing,
                 dragSnapshot := Some ((snapshot_at pt)\<lparr>initialRect := Some ir,
                    annotationId := Some i, rectIndex := Some r, handle := Some h\<rparr>)\<rparr>))"

definition down_move :: "MouseEvent \<Rightarrow> string \<Rightarrow> nat option \<Rightarrow> Point \<Rightarrow> State \<Rightarrow> State" where
  "down_move e i rIdx pt st =
     (case currentStudent st of
        None \<Rightarrow> st
      | Some cs \<Rightarrow>
         (case find_annotation i (annotations cs) of
            None \<Rightarrow> st
          | Some ann \<Rightarrow>
              if shiftKey e \<and> ann_type ann = RectType then
                st\<lparr>interactionMode := Creating, editingAnnotationId := Some i,
                   dragSnapshot := Some (snapshot_at pt)\<rparr>
              else
                (let st2 = st\<lparr>editingAnnotationId := Some i, interactionMode := Moving\<rparr>;
                     initRect = (case rIdx of
                                   Some r \<Rightarrow> if ann_type ann = RectType then rect_at (Some ann) r else None
                                 | None \<Rightarrow> None);
                     initDot = (if \<not> (ann_type ann = RectType \<and> rIdx \<noteq> None)
                                   \<and> (ann_type ann = Dot \<or> ann_type ann = Stamp)
                                then Some \<lparr>pt_x = coord (ann_x ann), pt_y = coord (ann_y ann)\<rparr>
                                else None)
                 in if initRect \<noteq> None \<or> initDot \<noteq> None then
                      st2\<lparr>dragSnapshot := Some ((snapshot_at pt)\<lparr>initialRect := initRect,
                            initialDot := initDot, annotationId := Some i, rectIndex := rIdx\<rparr>)\<rparr>
                    else st2)))"

definition down_create :: "MouseEvent \<Rightarrow> Point \<Rightarrow> State \<Rightarrow> State" where
  "down_create e pt st =
     (if shiftKey e \<and> truthy (editingAnnotationId st) then
        (case currentStudent st of
           None \<Rightarrow> st
         | Some cs \<Rightarrow>
            (let activeAnn = find_annotation (or_default (editingAnnotationId st) []) (annotations cs);
                 keep = (case activeAnn of
                           None \<Rightarrow> False
                         | Some a \<Rightarrow> ann_type a = RectType \<and> pageIndex a = currentImageIndex st);
                 st2 = (if \<not> keep then st\<lparr>editingAnnotationId := None, newAnnotationId := None\<rparr>
                        else st)
             in st2\<lparr>interactionMode := Creating, dragSnapshot := Some (snapshot_at pt)\<rparr>))
      else
        (let st2 = (if \<not> shiftKey e then st\<lparr>editingAnnotationId := None, newAnnotationId := None\<rparr>
                    else st)
         in st2\<lparr>interactionMode := Creating, dragSnapshot := Some (snapshot_at pt)\<rparr>))"

definition down_right :: "MouseEvent \<Rightarrow> Point \<Rightarrow> State \<Rightarrow> State" where
  "down_right e pt st =
     (let st2 = (if \<not> shiftKey e then st\<lparr>editingAnnotationId := None, newAnnotationId := None\<rparr>
                 else st)
      in st2\<lparr>interactionMode := NoInteraction, dragSnapshot := Some (snapshot_at pt)\<rparr>)"

definition handleMouseDown ::
    "MouseEvent \<Rightarrow> string option \<Rightarrow> nat option \<Rightarrow> ResizeHandle option \<Rightarrow> State \<Rightarrow> State" where
  "handleMouseDown e annId rIdx hnd st =
     (if step st \<noteq> Grading then st
      else if button e = 1 then
        st\<lparr>interactionMode := Panning,
           dragSnapshot := Some ((snapshot_at \<lparr>pt_x = 0, pt_y = 0\<rparr>)
             \<lparr>clientStart := Some \<lparr>pt_x = clientX e, pt_y = clientY e\<rparr>,
              initialScroll := Some (case scrollContainer st of
                                       None \<Rightarrow> \<lparr>scroll_left = 0, scroll_top = 0\<rparr>
                                     | Some sc \<Rightarrow> sc)\<rparr>)\<rparr>
      else
        (let pt = getRelativePoint e;
             st1 = (if interactionMode st = NoInteraction \<and> currentStudent st \<noteq> None
                    then st\<lparr>dragStartSnapshot := Some (json_clone (pageAnnotations st))\<rparr>
                    else st)
         in if activeMode st = Stamper \<and> button e = 0 \<and> \<not> truthy annId then down_stamp e pt st1
            else if activeMode st = Select \<and> button e = 0 then down_select annId pt st1
            else if button e = 0 \<and> hnd \<noteq> None \<and> truthy annId \<and> rIdx \<noteq> None then
              (case (hnd, rIdx) of
                 (Some h, Some r) \<Rightarrow> down_resize (or_default annId []) r h pt st1
               | _ \<Rightarrow> st1)
            else if button e = 0 \<and> truthy annId then down_move e (or_default annId []) rIdx pt st1
            else if button e = 0 then down_create e pt st1
            else if button e = 2 then down_right e pt st1
            else st1))"

subsection \<open>Pointer move\<close>

text \<open>
  In the two multi-move cases where the stored geometry does not fit the annotation's
  present type (possible only if the type was changed during the gesture) the source
  produces NaN coordinates or throws; the model leaves the annotation as it is.
\<close>

definition moveMultiAnnotation :: "(string \<rightharpoonup> Geometry) \<Rightarrow> real \<Rightarrow> real \<Rightarrow> Annotation \<Rightarrow> Annotation" where
  "moveMultiAnnotation positions deltaX deltaY a =
     (case positions (ann_id a) of
        None \<Rightarrow> a
      | Some initial \<Rightarrow>
          if ann_type a = Dot \<or> ann_type a = Stamp then
            (case initial of
               GPoint dot \<Rightarrow> a\<lparr>ann_x := Some (clamp (pt_x dot + deltaX) 0 1),
                                 ann_y := Some (clamp (pt_y dot + deltaY) 0 1)\<rparr>
             | GRects _ \<Rightarrow> a)
          else
            (case initial of
               GRects rs \<Rightarrow>
                 a\<lparr>rects := Some (map (\<lambda>r. r\<lparr>rect_x := clamp (rect_x r + deltaX) 0 (1 - rect_width r),
                                               rect_y := clamp (rect_y r + deltaY) 0 (1 - rect_height r)\<rparr>) rs)\<rparr>
             | GPoint _ \<Rightarrow> a))"

text \<open>
  \<open>newRects[rectIndex] = v\<close>. Inside the list the element is replaced and at its end
  the list grows by one; further out JavaScript leaves holes, which a list of rectangles
  cannot hold, and the model keeps the list. The move writes
  \<open>{ ...newRects[rectIndex], x, y }\<close>, which is a rectangle only when the index is inside
  the list; outside it the model keeps the annotation. The handlers store a
  \<open>rectIndex\<close> only after reading a rectangle at that index.
\<close>

definition array_set :: "'a list \<Rightarrow> nat \<Rightarrow> 'a \<Rightarrow> 'a list" where
  "array_set xs i v =
     (if i < length xs then xs[i := v] else if i = length xs then xs @ [v] else xs)"

definition moveAnnotation ::
    "Point option \<Rightarrow> Rect option \<Rightarrow> nat option \<Rightarrow> real \<Rightarrow> real \<Rightarrow> string \<Rightarrow> Annotation \<Rightarrow> Annotation" where
  "moveAnnotation initDot initRect rIdx deltaX deltaY i a =
     (if ann_id a \<noteq> i then a
      else if (ann_type a = Dot \<or> ann_type a = Stamp) \<and> initDot \<noteq> None then
        (case initDot of
           Some d \<Rightarrow> a\<lparr>ann_x := Some (clamp (pt_x d + deltaX) 0 1),
                        ann_y := Some (clamp (pt_y d + deltaY) 0 1)\<rparr>
         | None \<Rightarrow> a)
      else if ann_type a = RectType then
        (case (initRect, rIdx, rects a) of
           (Some ir, Some ri, Some rs) \<Rightarrow>
             (let newX = clamp (rect_x ir + deltaX) 0 (1 - rect_width ir);
                  newY = clamp (rect_y ir + deltaY) 0 (1 - rect_height ir)
              in if ri < length rs
                 then a\<lparr>rects := Some (rs[ri := (rs ! ri)\<lparr>rect_x := newX, rect_y := newY\<rparr>])\<rparr>
                 else a)
         | _ \<Rightarrow> a)
      else a)"

definition resizedRect :: "Rect \<Rightarrow> ResizeHandle \<Rightarrow> real \<Rightarrow> real \<Rightarrow> Rect" where
  "resizedRect ir h deltaX deltaY =
     (case h of
        SE \<Rightarrow> ir\<lparr>rect_width := max 0.01 (rect_width ir + deltaX),
                  rect_height := max 0.01 (rect_height ir + deltaY)\<rparr>
      | SW \<Rightarrow> ir\<lparr>rect_x := rect_x ir + deltaX,
                  rect_width := max 0.01 (rect_width ir - deltaX),
                  rect_height := max 0.01 (rect_height ir + deltaY)\<rparr>
      | NE \<Rightarrow> ir\<lparr>rect_y := rect_y ir + deltaY,
                  rect_width := max 0.01 (rect_width ir + deltaX),
                  rect_height := max 0.01 (rect_height ir - deltaY)\<rparr>
      | NW \<Rightarrow> ir\<lparr>rect_x := rect_x ir + deltaX,
                  rect_y := rect_y ir + deltaY,
                  rect_width := max 0.01 (rect_width ir - deltaX),
                  rect_height := max 0.01 (rect_height ir - deltaY)\<rparr>)"

definition resizeAnnotation ::
    "Rect \<Rightarrow> ResizeHandle \<Rightarrow> nat \<Rightarrow> real \<Rightarrow> real \<Rightarrow> string \<Rightarrow> Annotation \<Rightarrow> Annotation" where
  "resizeAnnotation ir h ri deltaX deltaY i a =
     (case rects a of
        None \<Rightarrow> a
      | Some rs \<Rightarrow>
          if ann_id a \<noteq> i then a
          else a\<lparr>rects := Some (array_set rs ri (resizedRect ir h deltaX deltaY))\<rparr>)"

definition inSelection :: "nat \<Rightarrow> Rect \<Rightarrow> Annotation \<Rightarrow> bool" where
  "inSelection page box a =
     (if pageIndex a \<noteq> page then False
      else if ann_type a = Dot \<or> ann_type a = Stamp then
        (case (ann_x a, ann_y a) of
           (Some ax, Some ay) \<Rightarrow>
              ax \<ge> rect_x box \<and> ax \<le> rect_x box + rect_width box
              \<and> ay \<ge> rect_y box \<and> ay \<le> rect_y box + rect_height box
         | _ \<Rightarrow> False)
      else
        (case rects a of
           None \<Rightarrow> False
         | Some rs \<Rightarrow>
             list_ex (\<lambda>r. \<not> (rect_x r > rect_x box + rect_width box
                              \<or> rect_x r + rect_width r < rect_x box
                              \<or> rect_y r > rect_y box + rect_height box
                              \<or> rect_y r + rect_height r < rect_y box)) rs))"

definition map_annotations_at :: "nat \<Rightarrow> (Annotation \<Rightarrow> Annotation) \<Rightarrow> Student list \<Rightarrow> Student list" where
  "map_annotations_at i f ss = map_student_at i (\<lambda>s. s\<lparr>annotations := map f (annotations s)\<rparr>) ss"

definition handleMouseMove :: "MouseEvent \<Rightarrow> State \<Rightarrow> State" where
  "handleMouseMove e st =
     (case dragSnapshot st of
        None \<Rightarrow> st
      | Some ds \<Rightarrow>
         (case (interactionMode st = Panning, clientStart ds, initialScroll ds, scrollContainer st) of
            (True, Some cstart, Some iscroll, Some sc) \<Rightarrow>
              (let dx = clientX e - pt_x cstart; dy = clientY e - pt_y cstart
               in st\<lparr>scrollContainer := Some \<lparr>scroll_left = scroll_left iscroll - dx,
                                               scroll_top = scroll_top iscroll - dy\<rparr>\<rparr>)
          | _ \<Rightarrow>
            (let currentPt = getRelativePoint e;
                 deltaX = pt_x currentPt - pt_x (startPoint ds);
                 deltaY = pt_y currentPt - pt_y (startPoint ds)
             in if interactionMode st = Selecting then
                  (let box = \<lparr>rect_x = min (pt_x (startPoint ds)) (pt_x currentPt),
                              rect_y = min (pt_y (startPoint ds)) (pt_y currentPt),
                              rect_width = \<bar>pt_x currentPt - pt_x (startPoint ds)\<bar>,
                              rect_height = \<bar>pt_y currentPt - pt_y (startPoint ds)\<bar>\<rparr>;
                       st1 = st\<lparr>selectionBox := Some box\<rparr>
                   in case currentStudent st of
                        None \<Rightarrow> st1
                      | Some cs \<Rightarrow>
                          st1\<lparr>selectedIds :=
                                map ann_id (filter (inSelection (currentImageIndex st) box) (annotations cs))\<rparr>)
                else if interactionMode st = MovingMulti \<and> initialMultiPositions ds \<noteq> None then
                  (case initialMultiPositions ds of
                     Some positions \<Rightarrow>
                       st\<lparr>students := map_annotations_at (currentStudentIndex st)
                             (moveMultiAnnotation positions deltaX deltaY) (students st)\<rparr>
                   | None \<Rightarrow> st)
                else if interactionMode st = Moving \<and> truthy (annotationId ds) then
                  st\<lparr>students := map_annotations_at (currentStudentIndex st)
                        (moveAnnotation (initialDot ds) (initialRect ds) (rectIndex ds) deltaX deltaY
                           (or_default (annotationId ds) []))
                        (students st)\<rparr>
                else if interactionMode st = Resizing then
                  (case (initialRect ds, truthy (annotationId ds), rectIndex ds, handle ds) of
                     (Some ir, True, Some ri, Some h) \<Rightarrow>
                       st\<lparr>students := map_annotations_at (currentStudentIndex st)
                             (resizeAnnotation ir h ri deltaX deltaY (or_default (annotationId ds) []))
                             (students st)\<rparr>
                   | _ \<Rightarrow> st)
                else if interactionMode st = Creating then st\<lparr>creationDragCurrent := Some currentPt\<rparr>
                else st)))"

subsection \<open>Pointer up\<close>

definition hypot :: "real \<Rightarrow> real \<Rightarrow> real" where
  "hypot a b = sqrt (a * a + b * b)"

text \<open>\<open>Math.max(...numbers)\<close> on a non-empty list.\<close>

definition max_of :: "int list \<Rightarrow> int" where
  "max_of ns = (case ns of [] \<Rightarrow> 0 | n # rest \<Rightarrow> fold max rest n)"

definition number_or_zero :: "int option \<Rightarrow> int" where
  "number_or_zero n = (case n of None \<Rightarrow> 0 | Some v \<Rightarrow> v)"

definition maxDotNumber :: "GradingMode \<Rightarrow> Annotation list \<Rightarrow> int" where
  "maxDotNumber m anns =
     (let modeDots = filter (\<lambda>a. mode a = m \<and> ann_type a = Dot) anns;
          numbers = map (\<lambda>d. number_or_zero (number d)) modeDots
      in if length numbers > 0 then max_of numbers else 0)"

definition up_commit_drag :: "State \<Rightarrow> State" where
  "up_commit_drag st =
     (case dragStartSnapshot st of
        None \<Rightarrow> st
      | Some snapshot \<Rightarrow>
          if (interactionMode st = Moving \<or> interactionMode st = Resizing
                \<or> interactionMode st = MovingMulti) \<and> truthy (sessionId st)
          then
            (let k = (case currentStudent st of None \<Rightarrow> ''undefined'' | Some cs \<Rightarrow> student_id cs)
                       @ ''-'' @ string_of_nat (currentImageIndex st);
                 entry = entry_or_empty (history st k)
             in st\<lparr>history := (history st)(k \<mapsto> \<lparr>past = past entry @ [snapshot], future = []\<rparr>)\<rparr>)
          else st)"

definition up_create :: "MouseEvent \<Rightarrow> Point \<Rightarrow> Point \<Rightarrow> State \<Rightarrow> State" where
  "up_create e currentPt startPt st =
     (let rawWidth = \<bar>pt_x currentPt - pt_x startPt\<bar>;
          rawHeight = \<bar>pt_y currentPt - pt_y startPt\<bar>;
          isDrag = (rawWidth > 0.01 \<or> rawHeight > 0.01);
          w = (if isDrag then rawWidth else 0.06);
          h = (if isDrag then rawHeight else 0.02);
          originX = (if isDrag then min (pt_x startPt) (pt_x currentPt) else pt_x startPt - 0.03);
          originY = (if isDrag then min (pt_y startPt) (pt_y currentPt) else pt_y startPt - 0.01);
          clampedX = clamp originX 0 (1 - w);
          clampedY = clamp originY 0 (1 - h);
          newRect = \<lparr>rect_x = clampedX, rect_y = clampedY, rect_width = w, rect_height = h\<rparr>
      in if shiftKey e \<and> truthy (editingAnnotationId st) then
           (let st1 = recordHistory st
            in st1\<lparr>students := map_annotations_at (currentStudentIndex st)
                  (\<lambda>a. if ann_id a = or_default (editingAnnotationId st) [] \<and> ann_type a = RectType
                           \<and> pageIndex a = currentImageIndex st
                        then a\<lparr>rects := Some (rects_or_empty (rects a) @ [newRect])\<rparr> else a)
                  (students st)\<rparr>)
         else
           (let newAnnotation =
                  \<lparr>ann_id = freshId e, mode = activeMode st, pageIndex = currentImageIndex st,
                   ann_type = RectType, ann_x = None, ann_y = None, rects = Some [newRect],
                   ann_text = Some [], code = None, correction = None, number = None,
                   isElaboration = None, stampData = None\<rparr>
            in (addAnnotation newAnnotation True st)
                 \<lparr>editingAnnotationId := Some (freshId e), newAnnotationId := Some (freshId e)\<rparr>))"

definition up_dot :: "MouseEvent \<Rightarrow> Point \<Rightarrow> Point \<Rightarrow> State \<Rightarrow> State" where
  "up_dot e currentPt startPt st =
     (let dist = hypot (pt_x currentPt - pt_x startPt) (pt_y currentPt - pt_y startPt)
      in if dist < 0.01 then
           (case currentStudent st of
              None \<Rightarrow> st
            | Some cs \<Rightarrow>
               (let maxNum = maxDotNumber (activeMode st) (annotations cs);
                    nextNum = (if ctrlKey e \<or> metaKey e then (if maxNum \<noteq> 0 then maxNum else 1)
                               else maxNum + 1);
                    isElab = ((ctrlKey e \<or> metaKey e) \<or> shiftKey e)
                in addAnnotation
                     \<lparr>ann_id = freshId e, mode = activeMode st, pageIndex = currentImageIndex st,
                      ann_type = Dot, ann_x = Some (pt_x currentPt), ann_y = Some (pt_y currentPt),
                      rects = None, ann_text = None, code = None, correction = None,
                      number = Some nextNum, isElaboration = Some isElab, stampData = None\<rparr>
                     True st))
         else st)"

definition handleMouseUp :: "MouseEvent \<Rightarrow> State \<Rightarrow> State" where
  "handleMouseUp e st =
     (if interactionMode st = Panning then st\<lparr>interactionMode := NoInteraction, dragSnapshot := None\<rparr>
      else
        (case dragSnapshot st of
           None \<Rightarrow> st
         | Some ds \<Rightarrow>
            (let currentPt = getRelativePoint e;
                 startPt = startPoint ds;
                 st1 = up_commit_drag st;
                 st2 = (if interactionMode st = Selecting then st1\<lparr>selectionBox := None\<rparr> else st1);
                 st3 = (if button e = 0 \<and> interactionMode st = Creating
                        then up_create e currentPt startPt st2 else st2);
                 st4 = (if button e = 2 \<and> interactionMode st = NoInteraction
                        then up_dot e currentPt startPt st3 else st3)
             in st4\<lparr>interactionMode := NoInteraction, dragSnapshot := None,
                    creationDragCurrent := None, dragStartSnapshot := None\<rparr>)))"

section \<open>Binarization engine (imageProcessing.ts)\<close>

text \<open>
  The pixel buffer of an \<open>ImageData\<close> is a list of bytes, four per pixel (red, green,
  blue, alpha) in row-major order; the two integral images are lists of reals that start
  filled with zeros, as a fresh \<open>Float64Array\<close> does. Decoding the source image and
  encoding the result are left to the image source.
\<close>

record ImageData =
  img_width :: nat
  img_height :: nat
  img_data :: "nat list"

text \<open>\<open>for (let i = 0; i < n; i++) body\<close>, threading the loop's variables.\<close>

primrec for_upto :: "nat \<Rightarrow> (nat \<Rightarrow> 's \<Rightarrow> 's) \<Rightarrow> 's \<Rightarrow> 's" where
  "for_upto 0 body s = s"
| "for_upto (Suc n) body s = body n (for_upto n body s)"

definition luma :: "nat list \<Rightarrow> nat \<Rightarrow> real" where
  "luma data index =
     real (data ! index) * 0.2126 + real (data ! (index + 1)) * 0.7152
       + real (data ! (index + 2)) * 0.0722"

text \<open>The body of the inner loop of the first pass; the state is (rowSum, rowSumSq, integral, integralSq).\<close>

definition integral_cell ::
    "nat list \<Rightarrow> nat \<Rightarrow> nat \<Rightarrow> nat \<Rightarrow> real \<times> real \<times> real list \<times> real list
       \<Rightarrow> real \<times> real \<times> real list \<times> real list" where
  "integral_cell data w row col = (\<lambda>(rowSum, rowSumSq, integral, integralSq).
     (let index = (row * w + col) * 4;
          val = luma data index;
          rowSum' = rowSum + val;
          rowSumSq' = rowSumSq + val * val
      in if row = 0 then
           (rowSum', rowSumSq', integral[col := rowSum'], integralSq[col := rowSumSq'])
         else
           (let currIdx = row * w + col;
                prevIdx = (row - 1) * w + col
            in (rowSum', rowSumSq',
                integral[currIdx := integral ! prevIdx + rowSum'],
                integralSq[currIdx := integralSq ! prevIdx + rowSumSq']))))"

definition integral_row ::
    "nat list \<Rightarrow> nat \<Rightarrow> nat \<Rightarrow> real list \<times> real list \<Rightarrow> real list \<times> real list" where
  "integral_row data w row = (\<lambda>(integral, integralSq).
     (case for_upto w (integral_cell data w row) (0, 0, integral, integralSq) of
        (rowSum, rowSumSq, integral', integralSq') \<Rightarrow> (integral', integralSq')))"

definition integralImages :: "nat list \<Rightarrow> nat \<Rightarrow> nat \<Rightarrow> real list \<times> real list" where
  "integralImages data w h =
     for_upto h (integral_row data w) (replicate (w * h) 0, replicate (w * h) 0)"

text \<open>
  The window of pixel (col, row) and Sauvola's threshold. \<open>Math.max(0, col - whalf)\<close> is
  the truncated subtraction of naturals.
\<close>

definition windowSum :: "real list \<Rightarrow> nat \<Rightarrow> nat \<Rightarrow> nat \<Rightarrow> nat \<Rightarrow> nat \<Rightarrow> real" where
  "windowSum table w x1 y1 x2 y2 =
     (let valD = table ! (y2 * w + x2);
          valB = (if y1 > 0 then table ! ((y1 - 1) * w + x2) else 0);
          valC = (if x1 > 0 then table ! (y2 * w + (x1 - 1)) else 0);
          valA = (if x1 > 0 \<and> y1 > 0 then table ! ((y1 - 1) * w + (x1 - 1)) else 0)
      in valD - valB - valC + valA)"

definition sauvolaThreshold :: "real list \<Rightarrow> real list \<Rightarrow> nat \<Rightarrow> nat \<Rightarrow> nat \<Rightarrow> nat \<Rightarrow> real" where
  "sauvolaThreshold integral integralSq w h col row =
     (let wsize = (41::nat);
          k = (0.2::real);
          R = (128::real);
          whalf = wsize div 2;
          x1 = col - whalf;
          y1 = row - whalf;
          x2 = min (w - 1) (col + whalf);
          y2 = min (h - 1) (row + whalf);
          count = (x2 - x1 + 1) * (y2 - y1 + 1);
          localSum = windowSum integral w x1 y1 x2 y2;
          localSumSq = windowSum integralSq w x1 y1 x2 y2;
          mean = localSum / real count;
          variance = max 0 ((localSumSq / real count) - (mean * mean));
          std = sqrt variance
      in mean * (1 + k * ((std / R) - 1)))"

definition binVal :: "nat list \<Rightarrow> real list \<Rightarrow> real list \<Rightarrow> nat \<Rightarrow> nat \<Rightarrow> nat \<Rightarrow> nat \<Rightarrow> nat" where
  "binVal data integral integralSq w h col row =
     (let threshold = sauvolaThreshold integral integralSq w h col row;
          pixelIndex = (row * w + col) * 4;
          pixelLuma = luma data pixelIndex
      in if pixelLuma > threshold then 255 else 0)"

definition write_pixel :: "nat \<Rightarrow> nat \<Rightarrow> nat list \<Rightarrow> nat list" where
  "write_pixel pixelIndex b out =
     out[pixelIndex := b, pixelIndex + 1 := b, pixelIndex + 2 := b, pixelIndex + 3 := 255]"

definition sauvolaPixels :: "nat \<Rightarrow> nat \<Rightarrow> nat list \<Rightarrow> nat list" where
  "sauvolaPixels w h data =
     (case integralImages data w h of
        (integral, integralSq) \<Rightarrow>
          for_upto h (\<lambda>row. for_upto w (\<lambda>col out.
              write_pixel ((row * w + col) * 4) (binVal data integral integralSq w h col row) out))
            (replicate (w * h * 4) 0))"

text \<open>
  \<open>getImageData\<close> throws on a canvas without area; the promise is then rejected.
\<close>

datatype ProcessingError = IndexSizeError

definition processImageWithSauvola :: "ImageData \<Rightarrow> ProcessingError + ImageData" where
  "processImageWithSauvola img =
     (if img_width img = 0 \<or> img_height img = 0 then Inl IndexSizeError
      else Inr \<lparr>img_width = img_width img, img_height = img_height img,
                img_data = sauvolaPixels (img_width img) (img_height img) (img_data img)\<rparr>)"

section \<open>Observations used in the properties\<close>

text \<open>The snapshots carried by the stamps of every student, in list order.\<close>

definition stampSnapshots :: "State \<Rightarrow> StampData option list list" where
  "stampSnapshots st =
     map (\<lambda>s. map stampData (filter (\<lambda>a. ann_type a = Stamp) (annotations s))) (students st)"

text \<open>The normalized-bounds invariant of a rectangle.\<close>

definition inBounds :: "Rect \<Rightarrow> bool" where
  "inBounds r \<longleftrightarrow>
     rect_x r \<ge> 0 \<and> rect_y r \<ge> 0 \<and> rect_x r + rect_width r \<le> 1 \<and> rect_y r + rect_height r \<le> 1"

text \<open>Whether an identifier is a key of the initial-geometry map of the gesture under way.\<close>

definition isMultiMoveKey :: "State \<Rightarrow> string \<Rightarrow> bool" where
  "isMultiMoveKey st i =
     (case dragSnapshot st of
        None \<Rightarrow> False
      | Some ds \<Rightarrow> (case initialMultiPositions ds of None \<Rightarrow> False | Some m \<Rightarrow> m i \<noteq> None))"

text \<open>
  A call of \<open>updateAnnotation\<close> with the time at which it arrives, and a sequence of
  calls handled in order. \<open>within_window t calls\<close>: every call arrives less than one
  second after the one before it, the first less than one second after time \<open>t\<close>.
\<close>

type_synonym UpdateCall = "nat \<times> string \<times> AnnotationPatch"

fun run_updates :: "UpdateCall list \<Rightarrow> State \<Rightarrow> State" where
  "run_updates [] st = st"
| "run_updates ((t, i, u) # calls) st = run_updates calls (updateAnnotation t i u st)"

fun within_window :: "nat \<Rightarrow> UpdateCall list \<Rightarrow> bool" where
  "within_window t [] = True"
| "within_window t ((t', i, u) # calls) = (t \<le> t' \<and> t' < t + 1000 \<and> within_window t' calls)"

fun last_call_time :: "nat \<Rightarrow> UpdateCall list \<Rightarrow> nat" where
  "last_call_time t [] = t"
| "last_call_time t ((t', i, u) # calls) = last_call_time t' calls"

text \<open>The history record after one snapshot of the current page has been pushed.\<close>

definition pushed :: "State \<Rightarrow> (string \<rightharpoonup> HistoryEntry)" where
  "pushed st =
     (case historyKey st of
        None \<Rightarrow> history st
      | Some k \<Rightarrow> (history st)(k \<mapsto>
          \<lparr>past = past (currentHistory st) @ [pageAnnotations st], future = []\<rparr>))"

text \<open>
  The structural mutations of a page: adding an annotation with its history record,
  deleting one or several, and a drag gesture from pointer-down over any number of
  pointer-moves to pointer-up. A drag gesture counts as one when the pointer-down starts
  a move, a resize or a multi-move with a drag snapshot, and the session has an
  identifier, so that pointer-up commits it; a deletion of several counts when the list
  of identifiers is not empty.
\<close>

datatype Mutation =
    AddAnnotation Annotation
  | DeleteAnnotation string
  | DeleteAnnotations "string list"
  | DragGesture MouseEvent "string option" "nat option" "ResizeHandle option" "MouseEvent list" MouseEvent

definition dragGesture ::
    "MouseEvent \<Rightarrow> string option \<Rightarrow> nat option \<Rightarrow> ResizeHandle option \<Rightarrow> MouseEvent list
       \<Rightarrow> MouseEvent \<Rightarrow> State \<Rightarrow> State" where
  "dragGesture down annId rIdx hnd moves up st =
     handleMouseUp up (fold handleMouseMove moves (handleMouseDown down annId rIdx hnd st))"

fun apply_mutation :: "Mutation \<Rightarrow> State \<Rightarrow> State" where
  "apply_mutation (AddAnnotation ann) st = addAnnotation ann True st"
| "apply_mutation (DeleteAnnotation i) st = deleteAnnotation i st"
| "apply_mutation (DeleteAnnotations ids) st = deleteAnnotations ids st"
| "apply_mutation (DragGesture down annId rIdx hnd moves up) st =
     dragGesture down annId rIdx hnd moves up st"

definition dragMode :: "InteractionMode \<Rightarrow> bool" where
  "dragMode m = (m = Moving \<or> m = Resizing \<or> m = MovingMulti)"

fun structural :: "Mutation \<Rightarrow> State \<Rightarrow> bool" where
  "structural (AddAnnotation ann) st = True"
| "structural (DeleteAnnotation i) st = True"
| "structural (DeleteAnnotations ids) st = (ids \<noteq> [])"
| "structural (DragGesture down annId rIdx hnd moves up) st =
     (let st1 = handleMouseDown down annId rIdx hnd st
      in dragMode (interactionMode st1) \<and> dragSnapshot st1 \<noteq> None \<and> truthy (sessionId st))"

fun run_mutations :: "Mutation list \<Rightarrow> State \<Rightarrow> State" where
  "run_mutations [] st = st"
| "run_mutations (m # ms) st = run_mutations ms (apply_mutation m st)"

fun structural_seq :: "Mutation list \<Rightarrow> State \<Rightarrow> bool" where
  "structural_seq [] st = True"
| "structural_seq (m # ms) st = (structural m st \<and> structural_seq ms (apply_mutation m st))"

text \<open>Two states show the same page of the same student, and the students keep their identifiers.\<close>

definition same_subjects :: "State \<Rightarrow> State \<Rightarrow> bool" where
  "same_subjects st st' \<longleftrightarrow>
     currentStudentIndex st' = currentStudentIndex st \<and> currentImageIndex st' = currentImageIndex st
     \<and> map student_id (students st') = map student_id (students st)"

text \<open>What a pointer-down that starts a drag leaves untouched.\<close>

definition session_frame :: "State \<Rightarrow> State \<Rightarrow> bool" where
  "session_frame st st' \<longleftrightarrow>
     students st' = students st \<and> currentStudentIndex st' = currentStudentIndex st
     \<and> currentImageIndex st' = currentImageIndex st \<and> history st' = history st
     \<and> sessionId st' = sessionId st \<and> dragStartSnapshot st' = dragStartSnapshot st"

text \<open>
  The state of the output buffer after the inner loop has written \<open>n\<close> pixels from pixel
  \<open>base\<close> on, and after the outer loop has written \<open>n\<close> rows.
\<close>

definition row_written :: "nat \<Rightarrow> nat \<Rightarrow> (nat \<Rightarrow> nat) \<Rightarrow> nat list \<Rightarrow> nat list \<Rightarrow> bool" where
  "row_written base n g out res \<longleftrightarrow>
     length res = length out
     \<and> (\<forall>j<base * 4. res ! j = out ! j)
     \<and> (\<forall>q<n. \<forall>c<4. res ! ((base + q) * 4 + c) = (if c = 3 then 255 else g q))"

definition rows_written :: "nat \<Rightarrow> nat \<Rightarrow> (nat \<Rightarrow> nat \<Rightarrow> nat) \<Rightarrow> nat list \<Rightarrow> nat list \<Rightarrow> bool" where
  "rows_written w n f out res \<longleftrightarrow>
     length res = length out
     \<and> (\<forall>r<n. \<forall>q<w. \<forall>c<4. res ! ((r * w + q) * 4 + c) = (if c = 3 then 255 else f q r))"

text \<open>
  An integral image of a field of constant value \<open>u\<close>, filled for the rows above \<open>r\<close> and
  for the first \<open>n\<close> cells of row \<open>r\<close>; and the write of one cell.
\<close>

definition table_rows :: "real \<Rightarrow> nat \<Rightarrow> nat \<Rightarrow> nat \<Rightarrow> nat \<Rightarrow> real list \<Rightarrow> bool" where
  "table_rows u w h r n T \<longleftrightarrow>
     length T = w * h
     \<and> (\<forall>r'<r. \<forall>c<w. T ! (r' * w + c) = u * real (c + 1) * real (r' + 1))
     \<and> (\<forall>c<n. T ! (r * w + c) = u * real (c + 1) * real (r + 1))"

definition cell_update :: "nat \<Rightarrow> nat \<Rightarrow> nat \<Rightarrow> real \<Rightarrow> real list \<Rightarrow> real list" where
  "cell_update w r n s T = T[r * w + n := (if r = 0 then 0 else T ! ((r - 1) * w + n)) + s]"

text \<open>Every pixel of the image has luminance \<open>v\<close>.\<close>

definition uniform_luma :: "nat list \<Rightarrow> nat \<Rightarrow> nat \<Rightarrow> real \<Rightarrow> bool" where
  "uniform_luma data w h v \<longleftrightarrow> (\<forall>p<w * h. luma data (p * 4) = v)"

section \<open>Example inputs\<close>

definition unit_canvas :: DOMRect where
  "unit_canvas = \<lparr>dom_left = 0, dom_top = 0, dom_width = 1, dom_height = 1\<rparr>"

text \<open>A pointer event without modifier keys over a canvas that occupies the unit square.\<close>

definition pointer :: "nat \<Rightarrow> real \<Rightarrow> real \<Rightarrow> MouseEvent" where
  "pointer b px py =
     \<lparr>button = b, shiftKey = False, ctrlKey = False, metaKey = False,
      clientX = px, clientY = py, canvasRect = Some unit_canvas,
      freshId = ''1700000000000.5'', today = ''3 Nov 2026''\<rparr>"

definition example_rect :: Annotation where
  "example_rect =
     \<lparr>ann_id = ''101'', mode = Language, pageIndex = 0, ann_type = RectType,
      ann_x = None, ann_y = None,
      rects = Some [\<lparr>rect_x = 0.5, rect_y = 0.5, rect_width = 0.1, rect_height = 0.1\<rparr>],
      ann_text = Some [], code = None, correction = None, number = None,
      isElaboration = None, stampData = None\<rparr>"

definition zero_scores :: StudentScore where
  "zero_scores = \<lparr>content = 0, communicative = 0, organisation = 0, language = 0\<rparr>"

definition no_justifications :: Justifications where
  "no_justifications =
     \<lparr>just_content = [], just_communicative = [], just_organisation = [], just_language = []\<rparr>"

definition example_student :: Student where
  "example_student =
     \<lparr>student_id = ''7'', name = ''Ana'', images = [''page0'', ''page1''],
      annotations = [example_rect], scores = zero_scores,
      justifications = no_justifications, timeSpent = 0\<rparr>"

definition other_student :: Student where
  "other_student =
     \<lparr>student_id = ''8'', name = ''Ben'', images = [''page0''],
      annotations = [], scores = zero_scores,
      justifications = no_justifications, timeSpent = 0\<rparr>"

definition example_state :: State where
  "example_state =
     \<lparr>students = [example_student, other_student], currentStudentIndex = 0,
      currentImageIndex = 0, activeMode = Language, history = Map.empty,
      typingTimeout = None, isTyping = False, dragStartSnapshot = None,
      sessionId = Some ''1699999999999'', graderName = Some [], step = Grading,
      interactionMode = NoInteraction, dragSnapshot = None, creationDragCurrent = None,
      editingAnnotationId = None, newAnnotationId = None, selectedIds = [],
      selectionBox = None, scrollContainer = None\<rparr>"

definition example_dot :: Annotation where
  "example_dot =
     \<lparr>ann_id = ''102'', mode = Content, pageIndex = 1, ann_type = Dot,
      ann_x = Some 0.3, ann_y = Some 0.4, rects = None,
      ann_text = None, code = None, correction = None, number = Some 1,
      isElaboration = Some False, stampData = None\<rparr>"

text \<open>One student with two pages, a rect on page 0 and a dot on page 1, shown at page 1.\<close>

definition split_example :: State where
  "split_example =
     example_state\<lparr>students := [example_student\<lparr>annotations := [example_rect, example_dot]\<rparr>],
                   currentImageIndex := 1\<rparr>"

text \<open>The select tool, with the rect and the dot on the first student.\<close>

definition select_example :: State where
  "select_example =
     example_state\<lparr>students := [example_student\<lparr>annotations := [example_rect, example_dot]\<rparr>,
                                 other_student],
                   activeMode := Select\<rparr>"

definition select_drag :: State where
  "select_drag = handleMouseDown (pointer 0 0.55 0.55) (Some ''101'') (Some 0) None select_example"

text \<open>A keystroke in the editor of the rect, 300 ms after an earlier one.\<close>

definition typing_calls :: "UpdateCall list" where
  "typing_calls = [(300, ''101'', \<lparr>upd_id = None, upd_mode = None, upd_pageIndex = None, upd_type = None,
      upd_x = None, upd_y = None, upd_rects = None, upd_text = Some (Some ''ab''), upd_code = None,
      upd_correction = None, upd_number = None, upd_isElaboration = None, upd_stampData = None\<rparr>)]"

text \<open>Dragging the rect to the right by 0.1, then deleting it.\<close>

definition example_mutations :: "Mutation list" where
  "example_mutations =
     [DragGesture (pointer 0 0.55 0.55) (Some ''101'') (Some 0) None
        [pointer 0 0.6 0.55, pointer 0 0.65 0.55] (pointer 0 0.65 0.55),
      DeleteAnnotation ''101'']"

text \<open>Two pixels of the same gray, and two pixels of different colours.\<close>

definition gray_image :: ImageData where
  "gray_image = \<lparr>img_width = 2, img_height = 1,
                  img_data = [128, 128, 128, 255, 128, 128, 128, 255]\<rparr>"

definition colour_image :: ImageData where
  "colour_image = \<lparr>img_width = 2, img_height = 1,
                    img_data = [10, 200, 30, 255, 250, 5, 90, 0]\<rparr>"

section \<open>Properties\<close>

lemmas session_defs =
  currentStudent_def historyKey_def recordHistory_def addAnnotation_def entry_or_empty_def
  map_student_at_def map_annotations_at_def json_clone_def onPage_def pageAnnotations_def
  truthy_def or_default_def

lemmas example_defs =
  example_state_def example_student_def other_student_def example_rect_def example_dot_def
  pointer_def unit_canvas_def zero_scores_def no_justifications_def

subsection \<open>Updating one student of the list\<close>

lemma map_student_at_length [simp]: "length (map_student_at i f ss) = length ss"
  by (simp add: map_student_at_def)

lemma map_student_at_nth:
  "j < length ss \<Longrightarrow> map_student_at i f ss ! j = (if j = i then f (ss ! j) else ss ! j)"
  by (simp add: map_student_at_def nth_enumerate_eq)

lemma map_student_at_conv:
  "map_student_at i f ss = (if i < length ss then ss[i := f (ss ! i)] else ss)"
  by (rule nth_equalityI) (auto simp: map_student_at_nth nth_list_update)

subsection \<open>History underflow\<close>

text \<open>
  C8. Undo when the past stack of the current page key is empty or absent, and redo when
  its future stack is empty or absent, return the state they were given: the students
  with their annotation lists and the history record are unchanged, and the functions
  have no error result.
\<close>

theorem history_underflow_noop:
  "(past (currentHistory st) = [] \<longrightarrow> performUndo st = st)
   \<and> (future (currentHistory st) = [] \<longrightarrow> performRedo st = st)"
  by (auto simp: currentHistory_def performUndo_def performRedo_def entry_or_empty_def
           split: option.splits)

theorem history_underflow_noop_witness:
  "past (currentHistory example_state) = [] \<and> performUndo example_state = example_state
   \<and> future (currentHistory example_state) = [] \<and> performRedo example_state = example_state"
proof -
  have "past (currentHistory example_state) = []" "future (currentHistory example_state) = []"
    by (simp_all add: currentHistory_def example_state_def historyKey_def currentStudent_def
          entry_or_empty_def)
  then show ?thesis using history_underflow_noop [of example_state] by simp
qed

subsection \<open>Stamps and score edits\<close>

lemma updateScore_annotations:
  "map annotations (students (updateScore category val st)) = map annotations (students st)"
  by (rule nth_equalityI) (simp_all add: updateScore_def map_student_at_nth)

text \<open>
  C7. Whatever sequence of \<open>updateScore\<close> calls follows (any category, any value), the
  snapshot \<open>stampData\<close> (scores, total, grader, date) of every stamp of every student is
  what it was before the calls.
\<close>

theorem stamp_snapshot_immutable:
  "stampSnapshots (fold (\<lambda>(category, val). updateScore category val) calls st) = stampSnapshots st"
proof (induction calls arbitrary: st)
  case Nil
  show ?case by simp
next
  case (Cons c calls)
  obtain category val where c: "c = (category, val)" by (cases c)
  have via: "stampSnapshots s =
      map (\<lambda>anns. map stampData (filter (\<lambda>a. ann_type a = Stamp) anns)) (map annotations (students s))"
    for s by (simp add: stampSnapshots_def comp_def)
  have "stampSnapshots (updateScore category val st) = stampSnapshots st"
    unfolding via updateScore_annotations ..
  with Cons.IH [of "updateScore category val st"] c show ?case by simp
qed

subsection \<open>Splitting and merging back\<close>

text \<open>
  C9. Splitting a student at page 1 and merging the new student back with
  \<open>mergeWithPrevious\<close> does not give the original annotations: the merged list is built
  from the annotations of the second part twice (once with the shifted page index) and
  the annotations of the first part are dropped. In the example the rect of page 0 is
  lost and the dot of page 1 appears twice, once on page 0.
\<close>

theorem split_merge_round_trip_fails:
  "annotations (students split_example ! 0) = [example_rect, example_dot]
   \<and> students (mergeWithPrevious (splitStudentAtPage ''9'' split_example))
       = [example_student\<lparr>annotations := [example_dot\<lparr>pageIndex := 0\<rparr>, example_dot]\<rparr>]"
  by (simp add: split_example_def mergeWithPrevious_def splitStudentAtPage_def shift_pages_def
        example_defs Let_def)

text \<open>
  The sibling \<open>mergeNextStudent\<close>, called on the first part, does restore the student:
  it appends the shifted annotations of the next student to those of the current one.
\<close>

lemma split_merge_next_restores:
  "students (mergeNextStudent ((splitStudentAtPage ''9'' split_example)\<lparr>currentStudentIndex := 0\<rparr>))
     = students split_example"
  by (simp add: split_example_def mergeNextStudent_def splitStudentAtPage_def shift_pages_def
        example_defs Let_def)

subsection \<open>Bounds after a resize\<close>

text \<open>
  The move and the multi-move clamp the origin to \<open>[0, 1 - width]\<close> and
  \<open>[0, 1 - height]\<close>, which keeps a rectangle no larger than the page inside it.
\<close>

lemma clamp_origin: "w \<le> 1 \<Longrightarrow> 0 \<le> clamp v 0 (1 - w) \<and> clamp v 0 (1 - w) + w \<le> 1"
  by (auto simp: clamp_def)

lemma multi_move_in_bounds:
  assumes "positions (ann_id a) = Some (GRects rs)" and "ann_type a = RectType"
    and "\<forall>r\<in>set rs. rect_width r \<le> 1 \<and> rect_height r \<le> 1"
  shows "\<forall>r\<in>set (rects_or_empty (rects (moveMultiAnnotation positions dx dy a))). inBounds r"
  using assms clamp_origin
  by (auto simp: moveMultiAnnotation_def rects_or_empty_def inBounds_def)

lemma move_in_bounds:
  assumes "ann_id a = i" and "ann_type a = RectType" and "rects a = Some rs" and "ri < length rs"
    and "rect_width (rs ! ri) = rect_width ir" and "rect_height (rs ! ri) = rect_height ir"
    and "rect_width ir \<le> 1" and "rect_height ir \<le> 1"
  shows "inBounds (rects_or_empty (rects (moveAnnotation d (Some ir) (Some ri) dx dy i a)) ! ri)"
  using assms clamp_origin [of "rect_width ir"] clamp_origin [of "rect_height ir"]
  by (simp add: moveAnnotation_def rects_or_empty_def inBounds_def Let_def)

text \<open>
  C2. A resize is not clamped. Grabbing the south-west handle of the rectangle
  (0.5, 0.5, 0.1, 0.1) at its corner (0.5, 0.6) and moving the pointer to the right
  edge (1, 0.6) leaves the rectangle at x = 1 with width 0.01, so x + width exceeds 1.
\<close>

theorem resize_leaves_page_bounds:
  "map rects (annotations (students
      (handleMouseMove (pointer 0 1 0.6)
        (handleMouseDown (pointer 0 0.5 0.6) (Some ''101'') (Some 0) (Some SW) example_state)) ! 0))
    = [Some [\<lparr>rect_x = 1, rect_y = 0.5, rect_width = 0.01, rect_height = 0.1\<rparr>]]
   \<and> \<not> inBounds \<lparr>rect_x = 1, rect_y = 0.5, rect_width = 0.01, rect_height = 0.1\<rparr>"
  by (simp add: handleMouseDown_def handleMouseMove_def down_resize_def getRelativePoint_def
        clamp_def snapshot_at_def resizeAnnotation_def resizedRect_def array_set_def rect_at_def
        find_annotation_def inBounds_def session_defs example_defs Let_def)

subsection \<open>Numbering of a new dot\<close>

lemma currentStudent_SomeD:
  "currentStudent st = Some cs \<Longrightarrow>
     currentStudentIndex st < length (students st) \<and> students st ! currentStudentIndex st = cs"
  by (auto simp: currentStudent_def split: if_splits)

lemma recordHistory_students [simp]: "students (recordHistory st) = students st"
  by (simp add: recordHistory_def split: option.splits)

lemma addAnnotation_students:
  "currentStudent st = Some cs \<Longrightarrow>
   students (addAnnotation ann r st)
     = (students st)[currentStudentIndex st := cs\<lparr>annotations := annotations cs @ [ann]\<rparr>]"
  by (auto simp: addAnnotation_def map_student_at_conv Let_def dest: currentStudent_SomeD)

lemma max_of_Max: "ns \<noteq> [] \<Longrightarrow> max_of ns = Max (set ns)"
  by (cases ns) (simp_all add: max_of_def Max.set_eq_fold del: set_simps)

text \<open>
  C6, as stated, fails when the maximum is 0: with no dot of the active category a click
  with the group modifier numbers the new dot 1, not 0.
\<close>

theorem group_click_without_dots:
  "number (last (annotations (students
      (handleMouseUp ((pointer 2 0.2 0.2)\<lparr>ctrlKey := True\<rparr>)
        (handleMouseDown ((pointer 2 0.2 0.2)\<lparr>ctrlKey := True\<rparr>) None None None example_state)) ! 0)))
     = Some 1
   \<and> maxDotNumber (activeMode example_state) (annotations (students example_state ! 0)) = 0"
  by (simp add: handleMouseDown_def handleMouseUp_def down_right_def up_dot_def up_commit_drag_def
        getRelativePoint_def clamp_def snapshot_at_def hypot_def maxDotNumber_def max_of_def
        session_defs example_defs Let_def)

text \<open>
  C6, amended. A right-button press and release while idle, less than 0.01 apart, appends
  one dot at the release point to the current student. With \<open>maxNum\<close> the largest number
  among that student's dots of the active category (a missing number counting as 0, and
  0 when there is no such dot), the dot is numbered \<open>maxNum + 1\<close> without the group
  modifier; with the group modifier it is numbered \<open>maxNum\<close> when that is not 0 and 1
  otherwise, and it is marked as an elaboration.
\<close>

theorem right_click_dot_numbering:
  assumes "step st = Grading" and "interactionMode st = NoInteraction"
    and "currentStudent st = Some cs"
    and "button ed = 2" and "button eu = 2"
    and "hypot (pt_x (getRelativePoint eu) - pt_x (getRelativePoint ed))
               (pt_y (getRelativePoint eu) - pt_y (getRelativePoint ed)) < 0.01"
  shows "students (handleMouseUp eu (handleMouseDown ed annId rIdx hnd st))
     = (students st)[currentStudentIndex st := cs\<lparr>annotations := annotations cs @
          [\<lparr>ann_id = freshId eu, mode = activeMode st, pageIndex = currentImageIndex st,
            ann_type = Dot,
            ann_x = Some (pt_x (getRelativePoint eu)), ann_y = Some (pt_y (getRelativePoint eu)),
            rects = None, ann_text = None, code = None, correction = None,
            number = Some (let maxNum = maxDotNumber (activeMode st) (annotations cs)
                           in if ctrlKey eu \<or> metaKey eu
                              then (if maxNum = 0 then 1 else maxNum) else maxNum + 1),
            isElaboration = Some (ctrlKey eu \<or> metaKey eu \<or> shiftKey eu),
            stampData = None\<rparr>]\<rparr>]"
proof -
  let ?st1 = "st\<lparr>dragStartSnapshot := Some (json_clone (pageAnnotations st))\<rparr>"
  let ?pt = "getRelativePoint ed"
  let ?dot = "\<lparr>ann_id = freshId eu, mode = activeMode st, pageIndex = currentImageIndex st,
            ann_type = Dot,
            ann_x = Some (pt_x (getRelativePoint eu)), ann_y = Some (pt_y (getRelativePoint eu)),
            rects = None, ann_text = None, code = None, correction = None,
            number = Some (let maxNum = maxDotNumber (activeMode st) (annotations cs)
                           in if ctrlKey eu \<or> metaKey eu
                              then (if maxNum = 0 then 1 else maxNum) else maxNum + 1),
            isElaboration = Some (ctrlKey eu \<or> metaKey eu \<or> shiftKey eu),
            stampData = None\<rparr>"
  have down: "handleMouseDown ed annId rIdx hnd st = down_right ed ?pt ?st1"
    using assms(1-4) by (simp add: handleMouseDown_def Let_def)
  let ?d = "down_right ed ?pt ?st1"
  have d_mode: "interactionMode ?d = NoInteraction"
    and d_snap: "dragSnapshot ?d = Some (snapshot_at ?pt)"
    and d_cur: "currentStudent ?d = Some cs"
    and d_students: "students ?d = students st"
    and d_fields: "activeMode ?d = activeMode st" "currentImageIndex ?d = currentImageIndex st"
        "currentStudentIndex ?d = currentStudentIndex st"
    using assms(3) by (auto simp: down_right_def Let_def currentStudent_def split: if_splits)
  have commit: "up_commit_drag ?d = ?d"
    using d_mode by (simp add: up_commit_drag_def split: option.splits)
  have "students (handleMouseUp eu ?d) = students (up_dot eu (getRelativePoint eu) ?pt ?d)"
    using d_mode d_snap assms(5) commit
    by (simp add: handleMouseUp_def Let_def snapshot_at_def)
  also have "\<dots> = students (addAnnotation ?dot True ?d)"
    using assms(6) d_cur d_fields by (simp add: up_dot_def Let_def)
  also have "\<dots> = (students st)[currentStudentIndex st :=
                       cs\<lparr>annotations := annotations cs @ [?dot]\<rparr>]"
    using addAnnotation_students [OF d_cur] d_students d_fields by simp
  finally show ?thesis using down by simp
qed

theorem right_click_dot_numbering_witness:
  "step example_state = Grading \<and> interactionMode example_state = NoInteraction
   \<and> currentStudent example_state = Some example_student
   \<and> button (pointer 2 0.2 0.2) = 2
   \<and> hypot (pt_x (getRelativePoint (pointer 2 0.2 0.2)) - pt_x (getRelativePoint (pointer 2 0.2 0.2)))
            (pt_y (getRelativePoint (pointer 2 0.2 0.2)) - pt_y (getRelativePoint (pointer 2 0.2 0.2)))
        < 0.01
   \<and> map number (annotations (students
        (handleMouseUp (pointer 2 0.2 0.2)
          (handleMouseDown (pointer 2 0.2 0.2) None None None example_state)) ! 0))
      = [None, Some 1]"
proof -
  have h: "step example_state = Grading" "interactionMode example_state = NoInteraction"
      "currentStudent example_state = Some example_student"
      "button (pointer 2 0.2 0.2) = 2" "button (pointer 2 0.2 0.2) = 2"
      "hypot (pt_x (getRelativePoint (pointer 2 0.2 0.2)) - pt_x (getRelativePoint (pointer 2 0.2 0.2)))
            (pt_y (getRelativePoint (pointer 2 0.2 0.2)) - pt_y (getRelativePoint (pointer 2 0.2 0.2)))
        < 0.01"
    by (simp_all add: example_state_def currentStudent_def pointer_def hypot_def)
  have m: "maxDotNumber Language [example_rect] = 0"
    by (simp add: maxDotNumber_def example_rect_def)
  show ?thesis
    using h right_click_dot_numbering [OF h, of None None None] m
    by (simp add: example_state_def example_student_def example_rect_def)
qed

subsection \<open>Frame of a multi-move\<close>

lemma moveMulti_unkeyed:
  "positions (ann_id a) = None \<Longrightarrow> moveMultiAnnotation positions dx dy a = a"
  by (simp add: moveMultiAnnotation_def)

lemma handleMouseMove_multi:
  assumes "interactionMode st = MovingMulti"
  shows "handleMouseMove e st =
     (case dragSnapshot st of
        None \<Rightarrow> st
      | Some ds \<Rightarrow>
         (case initialMultiPositions ds of
            None \<Rightarrow> st
          | Some positions \<Rightarrow>
              st\<lparr>students := map_annotations_at (currentStudentIndex st)
                    (moveMultiAnnotation positions
                       (pt_x (getRelativePoint e) - pt_x (startPoint ds))
                       (pt_y (getRelativePoint e) - pt_y (startPoint ds)))
                    (students st)\<rparr>))"
  using assms by (simp add: handleMouseMove_def Let_def split: option.splits)

text \<open>
  C10. A pointer-move in the moving-multi state changes nothing but the student list;
  every student other than the current one is unchanged; the current student keeps every
  field but its annotations, the annotation list keeps its length, and every annotation
  whose id is not a key of the gesture's initial-geometry map is unchanged.
\<close>

theorem multi_move_frame:
  assumes "interactionMode st = MovingMulti"
  shows "handleMouseMove e st = st\<lparr>students := students (handleMouseMove e st)\<rparr>
    \<and> length (students (handleMouseMove e st)) = length (students st)
    \<and> (\<forall>i<length (students st). i \<noteq> currentStudentIndex st \<longrightarrow>
          students (handleMouseMove e st) ! i = students st ! i)
    \<and> (\<forall>cs. currentStudent st = Some cs \<longrightarrow>
          (let cs' = students (handleMouseMove e st) ! currentStudentIndex st
           in cs' = cs\<lparr>annotations := annotations cs'\<rparr>
              \<and> length (annotations cs') = length (annotations cs)
              \<and> (\<forall>j<length (annotations cs).
                    \<not> isMultiMoveKey st (ann_id (annotations cs ! j)) \<longrightarrow>
                    annotations cs' ! j = annotations cs ! j)))"
proof (cases "dragSnapshot st")
  case None
  then have "handleMouseMove e st = st"
    by (simp add: handleMouseMove_multi [OF assms])
  then show ?thesis by (auto simp: Let_def dest: currentStudent_SomeD)
next
  case (Some ds)
  show ?thesis
  proof (cases "initialMultiPositions ds")
    case None
    with Some have "handleMouseMove e st = st"
      by (simp add: handleMouseMove_multi [OF assms])
    then show ?thesis by (auto simp: Let_def dest: currentStudent_SomeD)
  next
    case (Some positions)
    let ?f = "moveMultiAnnotation positions
                       (pt_x (getRelativePoint e) - pt_x (startPoint ds))
                       (pt_y (getRelativePoint e) - pt_y (startPoint ds))"
    have eq: "handleMouseMove e st =
        st\<lparr>students := map_annotations_at (currentStudentIndex st) ?f (students st)\<rparr>"
      using \<open>dragSnapshot st = Some ds\<close> Some by (simp add: handleMouseMove_multi [OF assms])
    have key: "isMultiMoveKey st i \<longleftrightarrow> positions i \<noteq> None" for i
      using \<open>dragSnapshot st = Some ds\<close> Some by (simp add: isMultiMoveKey_def)
    show ?thesis
      unfolding eq
      by (auto simp: Let_def map_annotations_at_def map_student_at_nth key moveMulti_unkeyed
               dest!: currentStudent_SomeD)
  qed
qed

lemma select_drag_state:
  "interactionMode select_drag = MovingMulti"
  "currentStudentIndex select_drag = 0"
  "students select_drag = students select_example"
  "isMultiMoveKey select_drag ''101''" "\<not> isMultiMoveKey select_drag ''102''"
  by (simp_all add: select_drag_def select_example_def handleMouseDown_def down_select_def
        buildMultiPositions_def initialGeometry_def isMultiMoveKey_def snapshot_at_def
        getRelativePoint_def clamp_def session_defs example_defs Let_def)

theorem multi_move_frame_witness:
  "interactionMode select_drag = MovingMulti
   \<and> students (handleMouseMove (pointer 0 0.7 0.7) select_drag) ! 1 = other_student
   \<and> annotations (students (handleMouseMove (pointer 0 0.7 0.7) select_drag) ! 0) ! 1 = example_dot"
proof -
  have cur: "currentStudent select_drag
      = Some (example_student\<lparr>annotations := [example_rect, example_dot]\<rparr>)"
    by (simp add: currentStudent_def select_drag_state select_example_def example_state_def)
  have ids: "ann_id example_dot = ''102''"
    by (simp add: example_dot_def)
  show ?thesis
    using multi_move_frame [OF select_drag_state(1), of "pointer 0 0.7 0.7"] cur ids
    by (simp add: select_drag_state select_example_def example_state_def Let_def)
qed

subsection \<open>Coalescing of text edits\<close>

lemma recordHistory_pushed: "history (recordHistory st) = pushed st"
  by (auto simp: recordHistory_def pushed_def currentHistory_def pageAnnotations_def
        historyKey_def json_clone_def Let_def split: option.splits)

lemma fire_timers_frame [simp]:
  "students (fire_timers t st) = students st"
  "history (fire_timers t st) = history st"
  "currentStudentIndex (fire_timers t st) = currentStudentIndex st"
  "currentImageIndex (fire_timers t st) = currentImageIndex st"
  by (simp_all add: fire_timers_def split: option.splits)

lemma pushed_fire_timers [simp]: "pushed (fire_timers t st) = pushed st"
  by (simp add: pushed_def historyKey_def currentStudent_def currentHistory_def pageAnnotations_def)

lemma recordHistory_frame [simp]:
  "isTyping (recordHistory st) = isTyping st"
  "typingTimeout (recordHistory st) = typingTimeout st"
  by (simp_all add: recordHistory_def Let_def split: option.splits)

lemma update_idle:
  assumes "\<not> isTyping (fire_timers t st)"
  shows "history (updateAnnotation t i u st) = pushed st"
    and "isTyping (updateAnnotation t i u st)"
    and "typingTimeout (updateAnnotation t i u st) = Some (t + 1000)"
  using assms by (simp_all add: updateAnnotation_def Let_def recordHistory_pushed)

lemma update_typing:
  assumes "isTyping st" and "typingTimeout st = Some d" and "t < d"
  shows "history (updateAnnotation t i u st) = history st"
    and "isTyping (updateAnnotation t i u st)"
    and "typingTimeout (updateAnnotation t i u st) = Some (t + 1000)"
  using assms by (simp_all add: updateAnnotation_def Let_def fire_timers_def)

lemma burst_rest:
  assumes "isTyping st" and "typingTimeout st = Some (t + 1000)" and "within_window t rest"
  shows "history (run_updates rest st) = history st
       \<and> isTyping (run_updates rest st)
       \<and> typingTimeout (run_updates rest st) = Some (last_call_time t rest + 1000)"
  using assms
proof (induction rest arbitrary: t st)
  case Nil
  then show ?case by simp
next
  case (Cons c rest)
  obtain t' i u where c: "c = (t', i, u)" by (cases c)
  from Cons.prems c have w: "t \<le> t'" "t' < t + 1000" "within_window t' rest" by simp_all
  note step = update_typing [OF Cons.prems(1,2) w(2), of i u]
  from Cons.IH [OF step(2,3) w(3)] step(1) c show ?case by simp
qed

lemma recordHistory_frame2 [simp]:
  "currentStudentIndex (recordHistory st) = currentStudentIndex st"
  "currentImageIndex (recordHistory st) = currentImageIndex st"
  by (simp_all add: recordHistory_def Let_def split: option.splits)

lemma fire_timers_key [simp]: "historyKey (fire_timers t st) = historyKey st"
  by (simp add: historyKey_def currentStudent_def)

lemma updateAnnotation_key: "historyKey (updateAnnotation t i u st) = historyKey st"
  by (simp add: historyKey_def currentStudent_def updateAnnotation_def Let_def map_student_at_nth)

lemma run_updates_key: "historyKey (run_updates calls st) = historyKey st"
  by (induction calls st rule: run_updates.induct) (simp_all add: updateAnnotation_key)

lemma pushed_past:
  "historyKey st = Some k \<Longrightarrow>
   pushed st = (history st)(k \<mapsto> \<lparr>past = past (currentHistory st) @ [pageAnnotations st], future = []\<rparr>)"
  by (simp add: pushed_def)

text \<open>
  C3. Let a burst start with a call at time \<open>t\<close> that finds the engine idle (no burst
  under way, or the idle timer of the previous one has run), followed by calls each
  less than 1000 ms after the one before. The burst pushes exactly one snapshot for the
  current page key, the page's annotation list as it was before the first call, and
  clears the redo stack; no other key changes. A call more than 1000 ms after the last
  call of the burst pushes exactly one further snapshot, the page as the burst left it.
\<close>

theorem text_edit_coalescing:
  assumes "historyKey st = Some k"
    and "\<not> isTyping (fire_timers t st)" and "within_window t rest"
  shows "history (run_updates ((t, i, u) # rest) st)
       = (history st)(k \<mapsto> \<lparr>past = past (currentHistory st) @ [pageAnnotations st], future = []\<rparr>)
    \<and> (\<forall>t' i' u'. last_call_time t rest + 1000 < t' \<longrightarrow>
          history (updateAnnotation t' i' u' (run_updates ((t, i, u) # rest) st))
            = (history st)(k \<mapsto>
                 \<lparr>past = past (currentHistory st)
                          @ [pageAnnotations st, pageAnnotations (run_updates ((t, i, u) # rest) st)],
                  future = []\<rparr>))"
proof -
  let ?st' = "run_updates ((t, i, u) # rest) st"
  note first = update_idle [OF assms(2), of i u]
  from burst_rest [OF first(2,3) assms(3)] first(1)
  have run: "history ?st' = pushed st"
    and typing: "typingTimeout ?st' = Some (last_call_time t rest + 1000)"
    by simp_all
  have key': "historyKey ?st' = Some k"
    using assms(1) by (simp only: run_updates_key)
  have cur': "past (currentHistory ?st') = past (currentHistory st) @ [pageAnnotations st]"
    using key' run assms(1) by (simp add: currentHistory_def pushed_past entry_or_empty_def)
  have "history (updateAnnotation t' i' u' ?st')
            = (history st)(k \<mapsto>
                 \<lparr>past = past (currentHistory st) @ [pageAnnotations st, pageAnnotations ?st'],
                  future = []\<rparr>)"
    if "last_call_time t rest + 1000 < t'" for t' i' u'
  proof -
    have "\<not> isTyping (fire_timers t' ?st')"
      using typing that by (simp add: fire_timers_def)
    then have "history (updateAnnotation t' i' u' ?st') = pushed ?st'"
      by (rule update_idle(1))
    then show ?thesis
      using key' cur' run assms(1) by (simp add: pushed_past)
  qed
  with run assms(1) show ?thesis by (simp add: pushed_past)
qed

theorem text_edit_coalescing_witness:
  "historyKey example_state = Some ''7-0''
   \<and> \<not> isTyping (fire_timers 0 example_state) \<and> within_window 0 typing_calls
   \<and> history (run_updates ((0, ''101'', snd (snd (hd typing_calls))) # typing_calls) example_state)
       = [''7-0'' \<mapsto> \<lparr>past = [example_rect] # [], future = []\<rparr>]"
proof -
  have h: "historyKey example_state = Some ''7-0''"
    "\<not> isTyping (fire_timers 0 example_state)" "within_window 0 typing_calls"
    by (simp_all add: historyKey_def currentStudent_def example_state_def example_student_def
          string_of_nat.simps fire_timers_def typing_calls_def)
  have p: "past (currentHistory example_state) = []" "pageAnnotations example_state = [example_rect]"
    unfolding currentHistory_def h(1)
    by (simp_all add: entry_or_empty_def pageAnnotations_def currentStudent_def
          example_state_def example_student_def example_rect_def onPage_def)
  have e: "history example_state = Map.empty" by (simp add: example_state_def)
  show ?thesis
    using h text_edit_coalescing [OF h, of "''101''" "snd (snd (hd typing_calls))"] p e
    by simp
qed


subsection \<open>Undo and redo\<close>

lemma same_subjects_refl [simp]: "same_subjects st st"
  by (simp add: same_subjects_def)

lemma same_subjects_trans: "same_subjects a b \<Longrightarrow> same_subjects b c \<Longrightarrow> same_subjects a c"
  by (simp add: same_subjects_def)

lemma same_subjects_length: "same_subjects st st' \<Longrightarrow> length (students st') = length (students st)"
  by (auto simp: same_subjects_def dest: map_eq_imp_length_eq)

lemma same_subjects_id:
  "same_subjects st st' \<Longrightarrow> i < length (students st) \<Longrightarrow>
     student_id (students st' ! i) = student_id (students st ! i)"
  by (metis same_subjects_def same_subjects_length nth_map)

lemma same_subjects_key: "same_subjects st st' \<Longrightarrow> historyKey st' = historyKey st"
  using same_subjects_length [of st st'] same_subjects_id [of st st' "currentStudentIndex st"]
  by (auto simp: historyKey_def currentStudent_def same_subjects_def)

lemma same_subjects_current:
  "same_subjects st st' \<Longrightarrow> currentStudent st \<noteq> None \<Longrightarrow> currentStudent st' \<noteq> None"
  using same_subjects_length [of st st']
  by (auto simp: currentStudent_def same_subjects_def split: if_splits)

lemma map_student_at_ids:
  "(\<And>s. student_id (f s) = student_id s) \<Longrightarrow>
     map student_id (map_student_at i f ss) = map student_id ss"
  by (rule nth_equalityI) (simp_all add: map_student_at_nth)

lemma recordHistory_eq: "recordHistory st = st\<lparr>history := pushed st\<rparr>"
  by (auto simp: recordHistory_def pushed_def currentHistory_def pageAnnotations_def
        historyKey_def json_clone_def Let_def split: option.splits)

lemma addAnnotation_step:
  "same_subjects st (addAnnotation ann True st)"
  "history (addAnnotation ann True st) = pushed st"
  "interactionMode (addAnnotation ann True st) = interactionMode st"
  by (simp_all add: addAnnotation_def Let_def same_subjects_def map_student_at_ids
        recordHistory_eq)

lemma deleteAnnotation_step:
  "same_subjects st (deleteAnnotation i st)"
  "history (deleteAnnotation i st) = pushed st"
  "interactionMode (deleteAnnotation i st) = interactionMode st"
  by (simp_all add: deleteAnnotation_def Let_def same_subjects_def map_student_at_ids
        recordHistory_eq)

lemma deleteAnnotations_step:
  assumes "ids \<noteq> []"
  shows "same_subjects st (deleteAnnotations ids st)"
  "history (deleteAnnotations ids st) = pushed st"
  "interactionMode (deleteAnnotations ids st) = interactionMode st"
  using assms by (simp_all add: deleteAnnotations_def Let_def same_subjects_def map_student_at_ids
        recordHistory_eq)


lemma down_select_frame: "session_frame st (down_select a pt st)"
  by (simp add: down_select_def session_frame_def Let_def split: option.splits)

lemma down_resize_frame: "session_frame st (down_resize i r h pt st)"
  by (simp add: down_resize_def session_frame_def split: option.splits)

lemma down_move_frame: "session_frame st (down_move e i r pt st)"
  by (simp add: down_move_def session_frame_def Let_def split: option.splits)

lemma down_stamp_mode:
  "interactionMode st = NoInteraction \<Longrightarrow> interactionMode (down_stamp e pt st) = NoInteraction"
  by (simp add: down_stamp_def Let_def split: option.splits)

lemma down_create_mode:
  "interactionMode st = NoInteraction \<Longrightarrow>
     interactionMode (down_create e pt st) = NoInteraction
     \<or> interactionMode (down_create e pt st) = Creating"
  by (simp add: down_create_def Let_def split: option.splits)

lemma down_right_mode: "interactionMode (down_right e pt st) = NoInteraction"
  by (simp add: down_right_def Let_def)

lemma down_drag_frame:
  assumes "interactionMode st = NoInteraction" and "currentStudent st \<noteq> None"
    and "dragMode (interactionMode (handleMouseDown e a r h st))"
  shows "session_frame (st\<lparr>dragStartSnapshot := Some (pageAnnotations st)\<rparr>)
           (handleMouseDown e a r h st)"
proof -
  let ?st1 = "st\<lparr>dragStartSnapshot := Some (pageAnnotations st)\<rparr>"
  let ?pt = "getRelativePoint e"
  have m1: "interactionMode ?st1 = NoInteraction" using assms(1) by simp
  have grading: "step st = Grading" and not_pan: "button e \<noteq> 1"
    using assms(1,3) by (auto simp: handleMouseDown_def dragMode_def split: if_splits)
  have eq: "handleMouseDown e a r h st =
     (if activeMode st = Stamper \<and> button e = 0 \<and> \<not> truthy a then down_stamp e ?pt ?st1
      else if activeMode st = Select \<and> button e = 0 then down_select a ?pt ?st1
      else if button e = 0 \<and> h \<noteq> None \<and> truthy a \<and> r \<noteq> None then
        (case (h, r) of
           (Some hh, Some rr) \<Rightarrow> down_resize (or_default a []) rr hh ?pt ?st1
         | _ \<Rightarrow> ?st1)
      else if button e = 0 \<and> truthy a then down_move e (or_default a []) r ?pt ?st1
      else if button e = 0 then down_create e ?pt ?st1
      else if button e = 2 then down_right e ?pt ?st1
      else ?st1)"
    using grading not_pan assms(1,2) by (simp add: handleMouseDown_def Let_def json_clone_def)
  show ?thesis
    using assms(3) down_stamp_mode [OF m1, of e ?pt] down_create_mode [OF m1, of e ?pt]
      down_right_mode [of e ?pt ?st1] m1
    unfolding eq
    by (auto simp: dragMode_def down_select_frame down_resize_frame down_move_frame
             split: if_splits option.splits)
qed

lemma down_drag:
  assumes "interactionMode st = NoInteraction" and "currentStudent st \<noteq> None"
    and "dragMode (interactionMode (handleMouseDown e a r h st))"
  shows "students (handleMouseDown e a r h st) = students st"
    and "currentStudentIndex (handleMouseDown e a r h st) = currentStudentIndex st"
    and "currentImageIndex (handleMouseDown e a r h st) = currentImageIndex st"
    and "history (handleMouseDown e a r h st) = history st"
    and "sessionId (handleMouseDown e a r h st) = sessionId st"
    and "dragStartSnapshot (handleMouseDown e a r h st) = Some (pageAnnotations st)"
  using down_drag_frame [OF assms] by (simp_all add: session_frame_def)

lemma map_annotations_at_ids:
  "map student_id (map_annotations_at i f ss) = map student_id ss"
  by (simp add: map_annotations_at_def map_student_at_ids)

lemma move_drag:
  assumes "dragMode (interactionMode st)"
  shows "\<exists>ss. handleMouseMove e st = st\<lparr>students := ss\<rparr>
              \<and> map student_id ss = map student_id (students st)"
proof -
  have keep: "\<exists>ss. st = st\<lparr>students := ss\<rparr> \<and> map student_id ss = map student_id (students st)"
    by (rule exI [of _ "students st"]) simp
  have change: "\<exists>ss. st\<lparr>students := map_annotations_at i f (students st)\<rparr> = st\<lparr>students := ss\<rparr>
              \<and> map student_id ss = map student_id (students st)" for i f
    by (rule exI [of _ "map_annotations_at i f (students st)"]) (simp add: map_annotations_at_ids)
  show ?thesis
  proof (cases "dragSnapshot st")
    case None
    then show ?thesis using keep by (simp add: handleMouseMove_def)
  next
    case (Some ds)
    from assms consider "interactionMode st = Moving" | "interactionMode st = Resizing"
      | "interactionMode st = MovingMulti" by (auto simp: dragMode_def)
    then show ?thesis
    proof cases
      case 1
      then show ?thesis using Some keep change
        by (simp add: handleMouseMove_def Let_def)
    next
      case 2
      then show ?thesis using Some keep change
        by (simp add: handleMouseMove_def Let_def split: option.splits bool.splits)
    next
      case 3
      then show ?thesis using Some keep change
        by (simp add: handleMouseMove_def Let_def split: option.splits)
    qed
  qed
qed

lemma moves_drag:
  assumes "dragMode (interactionMode st)"
  shows "\<exists>ss. fold handleMouseMove es st = st\<lparr>students := ss\<rparr>
              \<and> map student_id ss = map student_id (students st)"
  using assms
proof (induction es arbitrary: st)
  case Nil
  show ?case by (rule exI [of _ "students st"]) simp
next
  case (Cons e es)
  from move_drag [OF Cons.prems, of e] obtain ss
    where ss: "handleMouseMove e st = st\<lparr>students := ss\<rparr>"
      "map student_id ss = map student_id (students st)" by blast
  have "dragMode (interactionMode (st\<lparr>students := ss\<rparr>))" using Cons.prems by simp
  from Cons.IH [OF this] obtain ss'
    where ss': "fold handleMouseMove es (st\<lparr>students := ss\<rparr>) = st\<lparr>students := ss\<rparr>\<lparr>students := ss'\<rparr>"
      "map student_id ss' = map student_id (students (st\<lparr>students := ss\<rparr>))" by blast
  show ?case
    by (rule exI [of _ ss']) (use ss ss' in simp)
qed

lemma up_drag:
  assumes "dragMode (interactionMode st)" and "dragSnapshot st \<noteq> None"
    and "dragStartSnapshot st = Some snap" and "truthy (sessionId st)"
    and "historyKey st = Some k"
  shows "handleMouseUp e st =
     st\<lparr>history := (history st)(k \<mapsto> \<lparr>past = past (currentHistory st) @ [snap], future = []\<rparr>),
        interactionMode := NoInteraction, dragSnapshot := None,
        creationDragCurrent := None, dragStartSnapshot := None\<rparr>"
proof -
  from assms(2) obtain ds where ds: "dragSnapshot st = Some ds" by blast
  from assms(5) obtain cs where cs: "currentStudent st = Some cs"
    and k: "k = student_id cs @ ''-'' @ string_of_nat (currentImageIndex st)"
    by (auto simp: historyKey_def split: option.splits)
  have modes: "interactionMode st \<noteq> Panning" "interactionMode st \<noteq> Selecting"
    "interactionMode st \<noteq> Creating" "interactionMode st \<noteq> NoInteraction"
    using assms(1) by (auto simp: dragMode_def)
  have commit: "up_commit_drag st =
      st\<lparr>history := (history st)(k \<mapsto> \<lparr>past = past (currentHistory st) @ [snap], future = []\<rparr>)\<rparr>"
    using assms(1,3,4,5) cs k by (simp add: up_commit_drag_def dragMode_def currentHistory_def Let_def)
  show ?thesis
    using ds modes by (simp add: handleMouseUp_def Let_def commit)
qed


lemma dragGesture_step:
  assumes "interactionMode st = NoInteraction" and "currentStudent st \<noteq> None"
    and "structural (DragGesture down annId rIdx hnd moves up) st"
  shows "same_subjects st (dragGesture down annId rIdx hnd moves up st)"
    and "history (dragGesture down annId rIdx hnd moves up st) = pushed st"
    and "interactionMode (dragGesture down annId rIdx hnd moves up st) = NoInteraction"
proof -
  let ?d = "handleMouseDown down annId rIdx hnd st"
  from assms(3) have dm: "dragMode (interactionMode ?d)" and snap: "dragSnapshot ?d \<noteq> None"
    and sess: "truthy (sessionId st)" by (simp_all add: Let_def)
  note d = down_drag [OF assms(1,2) dm]
  from moves_drag [OF dm, of moves] obtain ss
    where m: "fold handleMouseMove moves ?d = ?d\<lparr>students := ss\<rparr>"
      and ids: "map student_id ss = map student_id (students ?d)" by blast
  let ?m = "?d\<lparr>students := ss\<rparr>"
  have subj: "same_subjects st ?m"
    using d ids by (simp add: same_subjects_def)
  from assms(2) obtain k where k: "historyKey st = Some k"
    by (auto simp: historyKey_def)
  have km: "historyKey ?m = Some k"
    using same_subjects_key [OF subj] k by simp
  have cur: "currentHistory ?m = currentHistory st"
    using km k d(4) by (simp add: currentHistory_def)
  have up: "handleMouseUp up ?m =
     ?m\<lparr>history := (history ?m)(k \<mapsto> \<lparr>past = past (currentHistory ?m) @ [pageAnnotations st], future = []\<rparr>),
        interactionMode := NoInteraction, dragSnapshot := None,
        creationDragCurrent := None, dragStartSnapshot := None\<rparr>"
    by (rule up_drag) (use dm snap d sess km in simp_all)
  have g: "dragGesture down annId rIdx hnd moves up st = handleMouseUp up ?m"
    by (simp add: dragGesture_def m)
  show "same_subjects st (dragGesture down annId rIdx hnd moves up st)"
    using subj unfolding g up by (simp add: same_subjects_def)
  show "history (dragGesture down annId rIdx hnd moves up st) = pushed st"
    unfolding g up using cur d(4) by (simp add: pushed_past [OF k])
  show "interactionMode (dragGesture down annId rIdx hnd moves up st) = NoInteraction"
    unfolding g up by simp
qed

lemma mutation_step:
  assumes "interactionMode st = NoInteraction" and "currentStudent st \<noteq> None"
    and "structural m st"
  shows "same_subjects st (apply_mutation m st)"
    and "history (apply_mutation m st) = pushed st"
    and "interactionMode (apply_mutation m st) = NoInteraction"
  using assms addAnnotation_step deleteAnnotation_step deleteAnnotations_step dragGesture_step
  by (cases m; simp)+


lemma pageAnnotations_on_page: "list_all (onPage (currentImageIndex st)) (pageAnnotations st)"
  by (cases "currentStudent st") (simp_all add: pageAnnotations_def list_all_iff)

lemma filter_on_page: "list_all (onPage p) q \<Longrightarrow> filter (onPage p) (xs @ q) = filter (onPage p) xs @ q"
  by (simp add: list_all_iff filter_id_conv)

lemma currentHistory_past_nonempty:
  assumes "past (currentHistory st) \<noteq> [] \<or> future (currentHistory st) \<noteq> []"
  obtains k cs where "historyKey st = Some k" and "currentStudent st = Some cs"
    and "history st k = Some (currentHistory st)"
  using assms
  by (auto simp: currentHistory_def entry_or_empty_def historyKey_def split: option.splits)

lemma restore_page:
  assumes "currentStudent st = Some cs" and "list_all (onPage (currentImageIndex st)) p"
    and "st' = st\<lparr>history := h,
           students := map (\<lambda>s. if student_id s \<noteq> student_id cs then s
                               else s\<lparr>annotations :=
                                      filter (\<lambda>a. \<not> onPage (currentImageIndex st) a) (annotations s) @ p\<rparr>)
                         (students st)\<rparr>"
  shows "same_subjects st st'" and "pageAnnotations st' = p" and "history st' = h"
proof -
  from assms(1) have i: "currentStudentIndex st < length (students st)"
    and c: "students st ! currentStudentIndex st = cs"
    by (auto dest: currentStudent_SomeD)
  show "same_subjects st st'"
    unfolding assms(3) same_subjects_def by (auto intro!: nth_equalityI)
  show "pageAnnotations st' = p"
    unfolding assms(3) using i c assms(2)
    by (simp add: pageAnnotations_def currentStudent_def list_all_iff filter_id_conv)
  show "history st' = h" unfolding assms(3) by simp
qed

lemma undo_step:
  assumes "past (currentHistory st) = ps @ [p]" and "list_all (onPage (currentImageIndex st)) p"
  shows "same_subjects st (performUndo st)"
    and "pageAnnotations (performUndo st) = p"
    and "currentHistory (performUndo st)
           = \<lparr>past = ps, future = pageAnnotations st # future (currentHistory st)\<rparr>"
proof -
  from assms(1) have "past (currentHistory st) \<noteq> [] \<or> future (currentHistory st) \<noteq> []" by simp
  then obtain k cs where k: "historyKey st = Some k" and cs: "currentStudent st = Some cs"
    and e: "history st k = Some (currentHistory st)"
    by (rule currentHistory_past_nonempty)
  let ?h = "(history st)(k \<mapsto> \<lparr>past = ps, future = pageAnnotations st # future (currentHistory st)\<rparr>)"
  have u: "performUndo st = st\<lparr>history := ?h,
           students := map (\<lambda>s. if student_id s \<noteq> student_id cs then s
                               else s\<lparr>annotations :=
                                      filter (\<lambda>a. \<not> onPage (currentImageIndex st) a) (annotations s) @ p\<rparr>)
                         (students st)\<rparr>"
    using k cs e assms(1)
    by (simp add: performUndo_def Let_def json_clone_def pageAnnotations_def)
  note r = restore_page [OF cs assms(2) u]
  show "same_subjects st (performUndo st)" by (rule r(1))
  show "pageAnnotations (performUndo st) = p" by (rule r(2))
  show "currentHistory (performUndo st)
           = \<lparr>past = ps, future = pageAnnotations st # future (currentHistory st)\<rparr>"
    using same_subjects_key [OF r(1)] k r(3)
    by (simp add: currentHistory_def entry_or_empty_def)
qed

lemma redo_step:
  assumes "future (currentHistory st) = p # fs" and "list_all (onPage (currentImageIndex st)) p"
  shows "same_subjects st (performRedo st)"
    and "pageAnnotations (performRedo st) = p"
    and "currentHistory (performRedo st)
           = \<lparr>past = past (currentHistory st) @ [pageAnnotations st], future = fs\<rparr>"
proof -
  from assms(1) have "past (currentHistory st) \<noteq> [] \<or> future (currentHistory st) \<noteq> []" by simp
  then obtain k cs where k: "historyKey st = Some k" and cs: "currentStudent st = Some cs"
    and e: "history st k = Some (currentHistory st)"
    by (rule currentHistory_past_nonempty)
  let ?h = "(history st)(k \<mapsto> \<lparr>past = past (currentHistory st) @ [pageAnnotations st], future = fs\<rparr>)"
  have u: "performRedo st = st\<lparr>history := ?h,
           students := map (\<lambda>s. if student_id s \<noteq> student_id cs then s
                               else s\<lparr>annotations :=
                                      filter (\<lambda>a. \<not> onPage (currentImageIndex st) a) (annotations s) @ p\<rparr>)
                         (students st)\<rparr>"
    using k cs e assms(1)
    by (simp add: performRedo_def Let_def json_clone_def pageAnnotations_def)
  note r = restore_page [OF cs assms(2) u]
  show "same_subjects st (performRedo st)" by (rule r(1))
  show "pageAnnotations (performRedo st) = p" by (rule r(2))
  show "currentHistory (performRedo st)
           = \<lparr>past = past (currentHistory st) @ [pageAnnotations st], future = fs\<rparr>"
    using same_subjects_key [OF r(1)] k r(3)
    by (simp add: currentHistory_def entry_or_empty_def)
qed


lemma undo_n:
  assumes "past (currentHistory st) = ps @ qs"
    and "\<forall>q\<in>set qs. list_all (onPage (currentImageIndex st)) q"
  shows "same_subjects st ((performUndo ^^ length qs) st)
    \<and> pageAnnotations ((performUndo ^^ length qs) st) = hd (qs @ [pageAnnotations st])
    \<and> currentHistory ((performUndo ^^ length qs) st)
         = \<lparr>past = ps, future = tl (qs @ [pageAnnotations st]) @ future (currentHistory st)\<rparr>"
  using assms
proof (induction qs arbitrary: st rule: rev_induct)
  case Nil
  then show ?case by simp
next
  case (snoc q qs)
  have p: "past (currentHistory st) = (ps @ qs) @ [q]" using snoc.prems(1) by simp
  have q: "list_all (onPage (currentImageIndex st)) q" using snoc.prems(2) by simp
  note u = undo_step [OF p q]
  have img: "currentImageIndex (performUndo st) = currentImageIndex st"
    using u(1) by (simp add: same_subjects_def)
  have "past (currentHistory (performUndo st)) = ps @ qs" by (simp add: u(3))
  moreover have "\<forall>q\<in>set qs. list_all (onPage (currentImageIndex (performUndo st))) q"
    using snoc.prems(2) img by simp
  ultimately have ih:
    "same_subjects (performUndo st) ((performUndo ^^ length qs) (performUndo st))
    \<and> pageAnnotations ((performUndo ^^ length qs) (performUndo st))
        = hd (qs @ [pageAnnotations (performUndo st)])
    \<and> currentHistory ((performUndo ^^ length qs) (performUndo st))
         = \<lparr>past = ps,
            future = tl (qs @ [pageAnnotations (performUndo st)]) @ future (currentHistory (performUndo st))\<rparr>"
    by (rule snoc.IH)
  have f: "(performUndo ^^ length (qs @ [q])) st = (performUndo ^^ length qs) (performUndo st)"
    by (simp add: funpow_swap1)
  show ?case
    unfolding f using ih u same_subjects_trans [OF u(1)]
    by (cases qs) simp_all
qed

lemma redo_n:
  assumes "future (currentHistory st) = qs @ fs"
    and "\<forall>q\<in>set qs. list_all (onPage (currentImageIndex st)) q"
  shows "same_subjects st ((performRedo ^^ length qs) st)
    \<and> pageAnnotations ((performRedo ^^ length qs) st) = last (pageAnnotations st # qs)
    \<and> future (currentHistory ((performRedo ^^ length qs) st)) = fs"
  using assms
proof (induction qs arbitrary: st)
  case Nil
  then show ?case by simp
next
  case (Cons q qs)
  have p: "future (currentHistory st) = q # (qs @ fs)" using Cons.prems(1) by simp
  have q: "list_all (onPage (currentImageIndex st)) q" using Cons.prems(2) by simp
  note r = redo_step [OF p q]
  have img: "currentImageIndex (performRedo st) = currentImageIndex st"
    using r(1) by (simp add: same_subjects_def)
  have "future (currentHistory (performRedo st)) = qs @ fs" by (simp add: r(3))
  moreover have "\<forall>q\<in>set qs. list_all (onPage (currentImageIndex (performRedo st))) q"
    using Cons.prems(2) img by simp
  ultimately have ih:
    "same_subjects (performRedo st) ((performRedo ^^ length qs) (performRedo st))
    \<and> pageAnnotations ((performRedo ^^ length qs) (performRedo st))
        = last (pageAnnotations (performRedo st) # qs)
    \<and> future (currentHistory ((performRedo ^^ length qs) (performRedo st))) = fs"
    by (rule Cons.IH)
  have f: "(performRedo ^^ length (q # qs)) st = (performRedo ^^ length qs) (performRedo st)"
    by (simp add: funpow_swap1)
  show ?case
    unfolding f using ih r same_subjects_trans [OF r(1)]
    by simp
qed

lemma run_trace:
  assumes "interactionMode st = NoInteraction" and "currentStudent st \<noteq> None"
    and "structural_seq ms st"
  shows "\<exists>tr. length tr = length ms
    \<and> past (currentHistory (run_mutations ms st)) = past (currentHistory st) @ tr
    \<and> (\<forall>q\<in>set tr. list_all (onPage (currentImageIndex st)) q)
    \<and> hd (tr @ [pageAnnotations (run_mutations ms st)]) = pageAnnotations st
    \<and> same_subjects st (run_mutations ms st)"
  using assms
proof (induction ms arbitrary: st)
  case Nil
  show ?case by (rule exI [of _ "[]"]) simp
next
  case (Cons m ms)
  let ?s = "apply_mutation m st"
  from Cons.prems(3) have sm: "structural m st" and sms: "structural_seq ms ?s" by simp_all
  note step = mutation_step [OF Cons.prems(1,2) sm]
  from Cons.prems(2) obtain k where k: "historyKey st = Some k"
    by (auto simp: historyKey_def)
  have k': "historyKey ?s = Some k" using same_subjects_key [OF step(1)] k by simp
  have cur: "currentStudent ?s \<noteq> None" by (rule same_subjects_current [OF step(1) Cons.prems(2)])
  have img: "currentImageIndex ?s = currentImageIndex st"
    using step(1) by (simp add: same_subjects_def)
  have past1: "past (currentHistory ?s) = past (currentHistory st) @ [pageAnnotations st]"
    using k' k step(2) by (simp add: currentHistory_def pushed_past entry_or_empty_def)
  from Cons.IH [OF step(3) cur sms] obtain tr where tr:
    "length tr = length ms"
    "past (currentHistory (run_mutations ms ?s)) = past (currentHistory ?s) @ tr"
    "\<forall>q\<in>set tr. list_all (onPage (currentImageIndex ?s)) q"
    "hd (tr @ [pageAnnotations (run_mutations ms ?s)]) = pageAnnotations ?s"
    "same_subjects ?s (run_mutations ms ?s)"
    by blast
  show ?case
    by (rule exI [of _ "pageAnnotations st # tr"])
       (use tr past1 img pageAnnotations_on_page [of st] same_subjects_trans [OF step(1) tr(5)]
         in simp)
qed

text \<open>
  C1. From an idle state with a current student, after any sequence of \<open>n\<close> structural
  mutations, \<open>n\<close> calls of \<open>performUndo\<close> give the current page the annotation list
  it had at the start, the same elements in the same order, and \<open>n\<close> calls of
  \<open>performRedo\<close> after them give it the list it had after the mutations.
\<close>

theorem undo_redo_inverse:
  assumes "interactionMode st = NoInteraction" and "currentStudent st \<noteq> None"
    and "structural_seq ms st"
  shows "pageAnnotations ((performUndo ^^ length ms) (run_mutations ms st)) = pageAnnotations st
    \<and> pageAnnotations ((performRedo ^^ length ms) ((performUndo ^^ length ms) (run_mutations ms st)))
        = pageAnnotations (run_mutations ms st)"
proof -
  let ?f = "run_mutations ms st"
  from run_trace [OF assms] obtain tr where tr:
    "length tr = length ms"
    "past (currentHistory ?f) = past (currentHistory st) @ tr"
    "\<forall>q\<in>set tr. list_all (onPage (currentImageIndex st)) q"
    "hd (tr @ [pageAnnotations ?f]) = pageAnnotations st"
    "same_subjects st ?f"
    by blast
  have img: "currentImageIndex ?f = currentImageIndex st"
    using tr(5) by (simp add: same_subjects_def)
  have on: "\<forall>q\<in>set tr. list_all (onPage (currentImageIndex ?f)) q"
    using tr(3) img by simp
  let ?u = "(performUndo ^^ length tr) ?f"
  from undo_n [OF tr(2) on]
  have u: "same_subjects ?f ?u"
    "pageAnnotations ?u = hd (tr @ [pageAnnotations ?f])"
    "currentHistory ?u = \<lparr>past = past (currentHistory st),
        future = tl (tr @ [pageAnnotations ?f]) @ future (currentHistory ?f)\<rparr>"
    by simp_all
  let ?qs = "tl (tr @ [pageAnnotations ?f])"
  have len: "length ?qs = length tr" by simp
  have imgu: "currentImageIndex ?u = currentImageIndex ?f"
    using u(1) by (simp add: same_subjects_def)
  have "set ?qs \<subseteq> set (tr @ [pageAnnotations ?f])"
    by (rule set_mp subsetI) (erule list.set_sel(2) [rotated], simp)
  then have onq: "\<forall>q\<in>set ?qs. list_all (onPage (currentImageIndex ?u)) q"
    using on pageAnnotations_on_page [of ?f] imgu by auto
  have fu: "future (currentHistory ?u) = ?qs @ future (currentHistory ?f)"
    by (simp add: u(3))
  from redo_n [OF fu onq]
  have "pageAnnotations ((performRedo ^^ length ?qs) ?u) = last (pageAnnotations ?u # ?qs)"
    by simp
  also have "pageAnnotations ?u # ?qs = tr @ [pageAnnotations ?f]"
    unfolding u(2) by simp
  finally have r: "pageAnnotations ((performRedo ^^ length tr) ?u) = pageAnnotations ?f"
    unfolding len by simp
  show ?thesis
    using u(2) tr(4) r unfolding tr(1) by simp
qed

theorem undo_redo_inverse_witness:
  "interactionMode example_state = NoInteraction \<and> currentStudent example_state \<noteq> None
   \<and> structural_seq example_mutations example_state
   \<and> pageAnnotations ((performUndo ^^ length example_mutations)
        (run_mutations example_mutations example_state)) = [example_rect]"
proof -
  have h: "interactionMode example_state = NoInteraction" "currentStudent example_state \<noteq> None"
    by (simp_all add: example_state_def currentStudent_def)
  have s: "structural_seq example_mutations example_state"
    by (simp add: example_mutations_def handleMouseDown_def down_move_def find_annotation_def
          rect_at_def dragMode_def snapshot_at_def getRelativePoint_def clamp_def
          session_defs example_defs Let_def)
  have p: "pageAnnotations example_state = [example_rect]"
    by (simp add: pageAnnotations_def currentStudent_def onPage_def example_state_def
          example_student_def example_rect_def)
  show ?thesis
    using h s undo_redo_inverse [OF h s] p by simp
qed

subsection \<open>Binarization: the output pass\<close>

lemma cell_index_less: "r' < r \<Longrightarrow> c < w \<Longrightarrow> r' * w + c < r * (w::nat)"
proof -
  assume a: "r' < r" "c < w"
  then have "r' * w + c < Suc r' * w" by simp
  also have "\<dots> \<le> r * w" using a(1) by (intro mult_le_mono1) simp
  finally show ?thesis .
qed

lemma cell_index_in: "r < h \<Longrightarrow> c < w \<Longrightarrow> r * w + c < w * (h::nat)"
  using cell_index_less [of r h c w] by (simp add: mult.commute)

lemma write_pixel_length [simp]: "length (write_pixel p b out) = length out"
  by (simp add: write_pixel_def)

lemma write_pixel_nth:
  "p + 3 < length out \<Longrightarrow>
   write_pixel p b out ! j =
     (if j = p \<or> j = p + 1 \<or> j = p + 2 then b else if j = p + 3 then 255 else out ! j)"
  by (auto simp: write_pixel_def nth_list_update)

lemma row_fill:
  assumes "(base + n) * 4 \<le> length out"
  shows "row_written base n g out
           (for_upto n (\<lambda>col buf. write_pixel ((base + col) * 4) (g col) buf) out)"
  using assms
proof (induction n)
  case 0
  show ?case by (simp add: row_written_def)
next
  case (Suc n)
  let ?res = "for_upto n (\<lambda>col buf. write_pixel ((base + col) * 4) (g col) buf) out"
  from Suc have ih: "row_written base n g out ?res" by simp
  then have len: "length ?res = length out" by (simp add: row_written_def)
  have inr: "(base + n) * 4 + 3 < length ?res" using Suc.prems len by simp
  have w: "write_pixel ((base + n) * 4) (g n) ?res ! j =
     (if j = (base + n) * 4 \<or> j = (base + n) * 4 + 1 \<or> j = (base + n) * 4 + 2 then g n
      else if j = (base + n) * 4 + 3 then 255 else ?res ! j)" for j
    by (rule write_pixel_nth [OF inr])
  show ?case
    unfolding row_written_def for_upto.simps
  proof (intro conjI allI impI)
    show "length (write_pixel ((base + n) * 4) (g n) ?res) = length out" using len by simp
  next
    fix j assume j: "j < base * 4"
    then have "?res ! j = out ! j" using ih by (simp add: row_written_def)
    with j show "write_pixel ((base + n) * 4) (g n) ?res ! j = out ! j"
      unfolding w by simp
  next
    fix q c assume qc: "q < Suc n" "c < (4::nat)"
    show "write_pixel ((base + n) * 4) (g n) ?res ! ((base + q) * 4 + c)
            = (if c = 3 then 255 else g q)"
    proof (cases "q = n")
      case True
      with qc(2) show ?thesis unfolding w by auto
    next
      case False
      with qc have "q < n" by simp
      then have lt: "(base + q) * 4 + c < (base + n) * 4" using qc(2) by simp
      have "?res ! ((base + q) * 4 + c) = (if c = 3 then 255 else g q)"
        using ih \<open>q < n\<close> qc(2) by (simp add: row_written_def)
      with lt show ?thesis unfolding w by simp
    qed
  qed
qed

lemma rows_fill:
  assumes "n \<le> h" and "length out = w * h * 4"
  shows "rows_written w n f out
           (for_upto n (\<lambda>row. for_upto w (\<lambda>col buf.
               write_pixel ((row * w + col) * 4) (f col row) buf)) out)"
  using assms(1)
proof (induction n)
  case 0
  show ?case by (simp add: rows_written_def)
next
  case (Suc n)
  let ?res = "for_upto n (\<lambda>row. for_upto w (\<lambda>col buf.
               write_pixel ((row * w + col) * 4) (f col row) buf)) out"
  from Suc have ih: "rows_written w n f out ?res" by simp
  then have len: "length ?res = w * h * 4" using assms(2) by (simp add: rows_written_def)
  have "Suc n * w \<le> h * w" using Suc.prems by (intro mult_le_mono1)
  then have fits: "(n * w + w) * 4 \<le> length ?res" using len by (simp add: mult.commute)
  note row = row_fill [OF fits, of "\<lambda>col. f col n"]
  let ?new = "for_upto w (\<lambda>col buf. write_pixel ((n * w + col) * 4) (f col n) buf) ?res"
  show ?case
    unfolding rows_written_def for_upto.simps
  proof (intro conjI allI impI)
    show "length ?new = length out"
      using row ih by (simp add: row_written_def rows_written_def)
  next
    fix r q c assume rqc: "r < Suc n" "q < w" "c < (4::nat)"
    show "?new ! ((r * w + q) * 4 + c) = (if c = 3 then 255 else f q r)"
    proof (cases "r = n")
      case True
      with rqc row show ?thesis by (simp add: row_written_def)
    next
      case False
      with rqc have "r < n" by simp
      from cell_index_less [OF this rqc(2)] rqc(3)
      have "(r * w + q) * 4 + c < n * w * 4" by simp
      then have "?new ! ((r * w + q) * 4 + c) = ?res ! ((r * w + q) * 4 + c)"
        using row by (simp add: row_written_def)
      then show ?thesis using ih \<open>r < n\<close> rqc by (simp add: rows_written_def)
    qed
  qed
qed

lemma sauvolaPixels_written:
  "rows_written w h (\<lambda>col row. binVal data (fst (integralImages data w h))
                                    (snd (integralImages data w h)) w h col row)
     (replicate (w * h * 4) 0) (sauvolaPixels w h data)"
proof (cases "integralImages data w h")
  case (Pair a b)
  have "rows_written w h (\<lambda>col row. binVal data a b w h col row) (replicate (w * h * 4) 0)
     (for_upto h (\<lambda>row. for_upto w (\<lambda>col buf.
         write_pixel ((row * w + col) * 4) (binVal data a b w h col row) buf))
       (replicate (w * h * 4) 0))"
    by (rule rows_fill [where h = h]) simp_all
  then show ?thesis
    unfolding sauvolaPixels_def Pair by simp
qed

lemma binVal_two_level:
  "binVal data i iq w h col row = 0 \<or> binVal data i iq w h col row = 255"
  by (simp add: binVal_def Let_def)


text \<open>
  C5. \<open>processImageWithSauvola\<close> is a function of the image alone. For every image with
  at least one pixel it returns an image of the same width and height whose buffer has
  four bytes per pixel, and in every pixel the three colour channels are equal and are
  0 or 255, and the alpha channel is 255.
\<close>

theorem binarize_two_level:
  assumes "0 < img_width img" and "0 < img_height img"
  shows "\<exists>res. processImageWithSauvola img = Inr res
     \<and> img_width res = img_width img \<and> img_height res = img_height img
     \<and> length (img_data res) = img_width img * img_height img * 4
     \<and> (\<forall>p<img_width img * img_height img.
           (img_data res ! (p * 4) = 0 \<or> img_data res ! (p * 4) = 255)
           \<and> img_data res ! (p * 4 + 1) = img_data res ! (p * 4)
           \<and> img_data res ! (p * 4 + 2) = img_data res ! (p * 4)
           \<and> img_data res ! (p * 4 + 3) = 255)"
proof -
  let ?w = "img_width img" and ?h = "img_height img"
  let ?out = "sauvolaPixels ?w ?h (img_data img)"
  let ?f = "\<lambda>col row. binVal (img_data img) (fst (integralImages (img_data img) ?w ?h))
                                    (snd (integralImages (img_data img) ?w ?h)) ?w ?h col row"
  have wr: "rows_written ?w ?h ?f (replicate (?w * ?h * 4) 0) ?out"
    by (rule sauvolaPixels_written)
  have px: "(?out ! (p * 4) = 0 \<or> ?out ! (p * 4) = 255)
           \<and> ?out ! (p * 4 + 1) = ?out ! (p * 4)
           \<and> ?out ! (p * 4 + 2) = ?out ! (p * 4)
           \<and> ?out ! (p * 4 + 3) = 255" if p: "p < ?w * ?h" for p
  proof -
    have q: "p mod ?w < ?w" using assms(1) by simp
    have r: "p div ?w < ?h" using p by (simp add: less_mult_imp_div_less mult.commute)
    have split: "p = (p div ?w) * ?w + p mod ?w" by simp
    have ch: "?out ! ((p div ?w * ?w + p mod ?w) * 4 + c) = (if c = 3 then 255 else ?f (p mod ?w) (p div ?w))"
      if "c < 4" for c
      using wr q r that unfolding rows_written_def by blast
    have ch': "?out ! (p * 4 + c) = (if c = 3 then 255 else ?f (p mod ?w) (p div ?w))"
      if "c < 4" for c
      using ch [OF that] by (simp only: split [symmetric])
    show ?thesis
      using ch' [of 0] ch' [of 1] ch' [of 2] ch' [of 3]
        binVal_two_level [of "img_data img" _ _ ?w ?h "p mod ?w" "p div ?w"]
      by simp
  qed
  have len: "length ?out = ?w * ?h * 4"
    using wr by (simp add: rows_written_def)
  show ?thesis
    using assms px len by (simp add: processImageWithSauvola_def)
qed


theorem binarize_two_level_witness:
  "0 < img_width colour_image \<and> 0 < img_height colour_image
   \<and> (\<exists>res. processImageWithSauvola colour_image = Inr res
          \<and> img_width res = 2 \<and> img_height res = 1 \<and> length (img_data res) = 8
          \<and> img_data res ! 3 = 255 \<and> img_data res ! 7 = 255)"
proof -
  have h: "0 < img_width colour_image" "0 < img_height colour_image"
    by (simp_all add: colour_image_def)
  from binarize_two_level [OF h] obtain res where res:
    "processImageWithSauvola colour_image = Inr res"
    "img_width res = img_width colour_image" "img_height res = img_height colour_image"
    "length (img_data res) = img_width colour_image * img_height colour_image * 4"
    "\<forall>p<img_width colour_image * img_height colour_image.
           (img_data res ! (p * 4) = 0 \<or> img_data res ! (p * 4) = 255)
           \<and> img_data res ! (p * 4 + 1) = img_data res ! (p * 4)
           \<and> img_data res ! (p * 4 + 2) = img_data res ! (p * 4)
           \<and> img_data res ! (p * 4 + 3) = 255"
    by blast
  have p: "0 < img_width colour_image * img_height colour_image"
    "1 < img_width colour_image * img_height colour_image"
    by (simp_all add: colour_image_def)
  from res(5) [rule_format, OF p(1)] res(5) [rule_format, OF p(2)]
  have "img_data res ! 3 = 255" "img_data res ! 7 = 255"
    by simp_all
  then show ?thesis
    using h res(1-4) by (simp add: colour_image_def)
qed

subsection \<open>Binarization of a uniform image\<close>

lemma integral_cell_eq:
  "integral_cell data w r n (rs, rq, I, Iq) =
     (let val = luma data ((r * w + n) * 4)
      in (rs + val, rq + val * val, cell_update w r n (rs + val) I,
          cell_update w r n (rq + val * val) Iq))"
  by (simp add: integral_cell_def cell_update_def Let_def)

lemma cell_update_rows:
  assumes "r < h" and "n < w" and "table_rows u w h r n T" and "s = u * real (n + 1)"
  shows "table_rows u w h r (Suc n) (cell_update w r n s T)"
proof -
  from assms(3) have len: "length T = w * h"
    and above: "\<And>r' c. r' < r \<Longrightarrow> c < w \<Longrightarrow> T ! (r' * w + c) = u * real (c + 1) * real (r' + 1)"
    and left: "\<And>c. c < n \<Longrightarrow> T ! (r * w + c) = u * real (c + 1) * real (r + 1)"
    by (simp_all add: table_rows_def)
  have inr: "r * w + n < length T" using cell_index_in [OF assms(1,2)] len by simp
  have prev: "(if r = 0 then 0 else T ! ((r - 1) * w + n)) = u * real (n + 1) * real r"
  proof (cases "r = 0")
    case True
    then show ?thesis by simp
  next
    case False
    then have "T ! ((r - 1) * w + n) = u * real (n + 1) * real (r - 1 + 1)"
      using assms(2) by (intro above) simp_all
    with False show ?thesis by simp
  qed
  have new: "(if r = 0 then 0 else T ! ((r - 1) * w + n)) + s = u * real (n + 1) * real (r + 1)"
    unfolding prev assms(4) by (simp add: algebra_simps)
  show ?thesis
    unfolding table_rows_def cell_update_def new
  proof (intro conjI allI impI)
    show "length (T[r * w + n := u * real (n + 1) * real (r + 1)]) = w * h" using len by simp
  next
    fix r' c assume a: "r' < r" "c < w"
    from cell_index_less [OF a] have "r' * w + c \<noteq> r * w + n" by simp
    then show "T[r * w + n := u * real (n + 1) * real (r + 1)] ! (r' * w + c)
                 = u * real (c + 1) * real (r' + 1)"
      using above [OF a] by simp
  next
    fix c assume c: "c < Suc n"
    show "T[r * w + n := u * real (n + 1) * real (r + 1)] ! (r * w + c)
            = u * real (c + 1) * real (r + 1)"
    proof (cases "c = n")
      case True
      then show ?thesis using inr by simp
    next
      case False
      with c have "c < n" by simp
      then show ?thesis using left [of c] by simp
    qed
  qed
qed

lemma uniform_luma_cell:
  "uniform_luma data w h v \<Longrightarrow> r < h \<Longrightarrow> c < w \<Longrightarrow> luma data ((r * w + c) * 4) = v"
  using cell_index_in [of r h c w] unfolding uniform_luma_def by blast

lemma integral_row_loop:
  assumes "uniform_luma data w h v" and "r < h" and "n \<le> w"
    and "table_rows v w h r 0 I" and "table_rows (v * v) w h r 0 Iq"
  shows "\<exists>I' Iq'. for_upto n (integral_cell data w r) (0, 0, I, Iq)
                    = (v * real n, v * v * real n, I', Iq')
           \<and> table_rows v w h r n I' \<and> table_rows (v * v) w h r n Iq'"
  using assms(3)
proof (induction n)
  case 0
  show ?case using assms(4,5) by simp
next
  case (Suc n)
  then obtain I' Iq' where st: "for_upto n (integral_cell data w r) (0, 0, I, Iq)
                    = (v * real n, v * v * real n, I', Iq')"
    and t: "table_rows v w h r n I'" "table_rows (v * v) w h r n Iq'"
    by auto
  from Suc.prems have n: "n < w" by simp
  have lum: "luma data ((r * w + n) * 4) = v"
    by (rule uniform_luma_cell [OF assms(1,2) n])
  have s1: "v * real n + v = v * real (n + 1)" and s2: "v * v * real n + v * v = v * v * real (n + 1)"
    by (simp_all add: algebra_simps)
  let ?I = "cell_update w r n (v * real n + v) I'"
  let ?Iq = "cell_update w r n (v * v * real n + v * v) Iq'"
  have t1: "table_rows v w h r (Suc n) ?I"
    by (rule cell_update_rows [OF assms(2) n t(1) s1])
  have t2: "table_rows (v * v) w h r (Suc n) ?Iq"
    by (rule cell_update_rows [OF assms(2) n t(2) s2])
  have "for_upto (Suc n) (integral_cell data w r) (0, 0, I, Iq)
          = integral_cell data w r n (v * real n, v * v * real n, I', Iq')"
    by (simp only: for_upto.simps st)
  also have "\<dots> = (v * real n + v, v * v * real n + v * v, ?I, ?Iq)"
    by (simp only: integral_cell_eq lum Let_def)
  also have "\<dots> = (v * real (Suc n), v * v * real (Suc n), ?I, ?Iq)"
    using s1 s2 by simp
  finally show ?case using t1 t2 by blast
qed

lemma table_rows_next: "table_rows u w h r w T \<Longrightarrow> table_rows u w h (Suc r) 0 T"
  by (auto simp: table_rows_def less_Suc_eq)

lemma integral_rows_loop:
  assumes "uniform_luma data w h v" and "n \<le> h"
  shows "\<exists>I Iq. for_upto n (integral_row data w) (replicate (w * h) 0, replicate (w * h) 0) = (I, Iq)
           \<and> table_rows v w h n 0 I \<and> table_rows (v * v) w h n 0 Iq"
  using assms(2)
proof (induction n)
  case 0
  show ?case by (simp add: table_rows_def)
next
  case (Suc n)
  then obtain I Iq where st: "for_upto n (integral_row data w)
        (replicate (w * h) 0, replicate (w * h) 0) = (I, Iq)"
    and t: "table_rows v w h n 0 I" "table_rows (v * v) w h n 0 Iq"
    by auto
  from Suc.prems have n: "n < h" by simp
  from integral_row_loop [OF assms(1) n le_refl t] obtain I' Iq'
    where row: "for_upto w (integral_cell data w n) (0, 0, I, Iq)
                    = (v * real w, v * v * real w, I', Iq')"
      and t': "table_rows v w h n w I'" "table_rows (v * v) w h n w Iq'"
    by blast
  have "for_upto (Suc n) (integral_row data w) (replicate (w * h) 0, replicate (w * h) 0)
          = integral_row data w n (I, Iq)"
    by (simp only: for_upto.simps st)
  also have "\<dots> = (I', Iq')"
    by (simp add: integral_row_def row)
  finally show ?case
    using t' [THEN table_rows_next] by blast
qed

lemma integralImages_uniform:
  assumes "uniform_luma data w h v"
  shows "table_rows v w h h 0 (fst (integralImages data w h))"
    and "table_rows (v * v) w h h 0 (snd (integralImages data w h))"
  using integral_rows_loop [OF assms le_refl] by (auto simp: integralImages_def)


lemma table_rows_nth:
  "table_rows u w h h 0 T \<Longrightarrow> r < h \<Longrightarrow> c < w \<Longrightarrow>
     T ! (r * w + c) = u * real (c + 1) * real (r + 1)"
  by (simp add: table_rows_def)

lemma windowSum_uniform:
  assumes "table_rows u w h h 0 T" and "x1 \<le> x2" and "x2 < w" and "y1 \<le> y2" and "y2 < h"
  shows "windowSum T w x1 y1 x2 y2 = u * real ((x2 - x1 + 1) * (y2 - y1 + 1))"
proof -
  have D: "T ! (y2 * w + x2) = u * real (x2 + 1) * real (y2 + 1)"
    by (rule table_rows_nth [OF assms(1,5,3)])
  have B: "(if y1 > 0 then T ! ((y1 - 1) * w + x2) else 0) = u * real (x2 + 1) * real y1"
  proof (cases "y1 > 0")
    case True
    then have "y1 - 1 < h" using assms(4,5) by simp
    from table_rows_nth [OF assms(1) this assms(3)] True show ?thesis by simp
  next
    case False
    then show ?thesis by simp
  qed
  have C: "(if x1 > 0 then T ! (y2 * w + (x1 - 1)) else 0) = u * real x1 * real (y2 + 1)"
  proof (cases "x1 > 0")
    case True
    then have "x1 - 1 < w" using assms(2,3) by simp
    from table_rows_nth [OF assms(1,5) this] True show ?thesis by simp
  next
    case False
    then show ?thesis by simp
  qed
  have A: "(if x1 > 0 \<and> y1 > 0 then T ! ((y1 - 1) * w + (x1 - 1)) else 0) = u * real x1 * real y1"
  proof (cases "x1 > 0 \<and> y1 > 0")
    case True
    then have "x1 - 1 < w" "y1 - 1 < h" using assms(2-5) by simp_all
    from table_rows_nth [OF assms(1) this(2,1)] True show ?thesis by simp
  next
    case False
    then show ?thesis by auto
  qed
  have ex: "real (x2 - x1 + 1) = real x2 - real x1 + 1" "real (y2 - y1 + 1) = real y2 - real y1 + 1"
    using assms(2,4) by (simp_all add: of_nat_diff)
  have "windowSum T w x1 y1 x2 y2
          = u * real (x2 + 1) * real (y2 + 1) - u * real (x2 + 1) * real y1
            - u * real x1 * real (y2 + 1) + u * real x1 * real y1"
    unfolding windowSum_def Let_def D B C A ..
  also have "\<dots> = u * ((real x2 - real x1 + 1) * (real y2 - real y1 + 1))"
    by (simp add: algebra_simps)
  also have "\<dots> = u * real ((x2 - x1 + 1) * (y2 - y1 + 1))"
    unfolding of_nat_mult ex ..
  finally show ?thesis .
qed

lemma mean_of_constant: "(c::real) \<noteq> 0 \<Longrightarrow> a * c / c = a"
  by simp

lemma sauvolaThreshold_uniform:
  assumes "table_rows v w h h 0 I" and "table_rows (v * v) w h h 0 Iq"
    and "col < w" and "row < h"
  shows "sauvolaThreshold I Iq w h col row = v * 0.8"
proof -
  let ?x1 = "col - 20" and ?y1 = "row - 20"
  let ?x2 = "min (w - 1) (col + 20)" and ?y2 = "min (h - 1) (row + 20)"
  let ?count = "(?x2 - ?x1 + 1) * (?y2 - ?y1 + 1)"
  have b: "?x1 \<le> ?x2" "?x2 < w" "?y1 \<le> ?y2" "?y2 < h"
    using assms(3,4) by auto
  have cnt: "real ?count \<noteq> 0" unfolding of_nat_eq_0_iff by simp
  have s: "windowSum I w ?x1 ?y1 ?x2 ?y2 = v * real ?count"
    by (rule windowSum_uniform [OF assms(1) b])
  have sq: "windowSum Iq w ?x1 ?y1 ?x2 ?y2 = v * v * real ?count"
    by (rule windowSum_uniform [OF assms(2) b])
  have mean: "windowSum I w ?x1 ?y1 ?x2 ?y2 / real ?count = v"
    unfolding s by (rule mean_of_constant [OF cnt])
  have meansq: "windowSum Iq w ?x1 ?y1 ?x2 ?y2 / real ?count = v * v"
    unfolding sq by (rule mean_of_constant [OF cnt])
  have half: "(41::nat) div 2 = 20" by simp
  show ?thesis
    unfolding sauvolaThreshold_def Let_def half mean meansq by simp
qed

lemma binVal_uniform:
  assumes "uniform_luma data w h v" and "col < w" and "row < h"
  shows "binVal data (fst (integralImages data w h)) (snd (integralImages data w h)) w h col row
           = (if v > 0 then 255 else 0)"
proof -
  have t: "sauvolaThreshold (fst (integralImages data w h)) (snd (integralImages data w h)) w h col row
             = v * 0.8"
    by (rule sauvolaThreshold_uniform [OF integralImages_uniform [OF assms(1)] assms(2,3)])
  have l: "luma data ((row * w + col) * 4) = v"
    by (rule uniform_luma_cell [OF assms(1,3,2)])
  show ?thesis
    unfolding binVal_def Let_def t l by simp
qed

lemma sauvolaPixels_uniform:
  assumes "uniform_luma data w h v"
  shows "\<forall>p<w * h. sauvolaPixels w h data ! (p * 4) = (if v > 0 then 255 else 0)
                  \<and> sauvolaPixels w h data ! (p * 4 + 1) = (if v > 0 then 255 else 0)
                  \<and> sauvolaPixels w h data ! (p * 4 + 2) = (if v > 0 then 255 else 0)"
proof -
  let ?out = "sauvolaPixels w h data"
  let ?f = "\<lambda>col row. binVal data (fst (integralImages data w h))
                                    (snd (integralImages data w h)) w h col row"
  let ?b = "if v > 0 then 255 else 0::nat"
  have wr: "rows_written w h ?f (replicate (w * h * 4) 0) ?out"
    by (rule sauvolaPixels_written)
  have px: "?out ! (p * 4) = ?b \<and> ?out ! (p * 4 + 1) = ?b \<and> ?out ! (p * 4 + 2) = ?b"
    if p: "p < w * h" for p
  proof -
    from p have w0: "0 < w" by (cases w) simp_all
    have q: "p mod w < w" using w0 by simp
    have r: "p div w < h" using p by (simp add: less_mult_imp_div_less mult.commute)
    have split: "p = (p div w) * w + p mod w" by simp
    have ch: "?out ! ((p div w * w + p mod w) * 4 + c) = (if c = 3 then 255 else ?f (p mod w) (p div w))"
      if "c < 4" for c
      using wr q r that unfolding rows_written_def by blast
    have ch': "?out ! (p * 4 + c) = (if c = 3 then 255 else ?f (p mod w) (p div w))"
      if "c < 4" for c
      using ch [OF that] by (simp only: split [symmetric])
    have f: "?f (p mod w) (p div w) = ?b"
      by (rule binVal_uniform [OF assms q r])
    show ?thesis
      using ch' [of 0] ch' [of 1] ch' [of 2] unfolding f by simp
  qed
  show ?thesis
    using px by simp
qed

text \<open>
  C4. For an image with at least one pixel whose pixels all have the same luminance
  \<open>v\<close>, every window has mean \<open>v\<close> and deviation 0, the threshold is \<open>0.8 * v\<close>
  everywhere, and every pixel falls on the same side of it: the output is white
  throughout when \<open>v\<close> is positive and black throughout when \<open>v\<close> is 0.
\<close>

theorem uniform_image_uniform_output:
  assumes "0 < img_width img" and "0 < img_height img"
    and "uniform_luma (img_data img) (img_width img) (img_height img) v"
  shows "\<exists>res b. processImageWithSauvola img = Inr res
     \<and> b = (if v > 0 then 255 else 0)
     \<and> (\<forall>p<img_width img * img_height img.
           img_data res ! (p * 4) = b \<and> img_data res ! (p * 4 + 1) = b
           \<and> img_data res ! (p * 4 + 2) = b)"
  using assms(1,2) sauvolaPixels_uniform [OF assms(3)]
  by (simp add: processImageWithSauvola_def)

theorem uniform_image_uniform_output_witness:
  "0 < img_width gray_image \<and> 0 < img_height gray_image
   \<and> uniform_luma (img_data gray_image) (img_width gray_image) (img_height gray_image) 128
   \<and> (\<exists>res. processImageWithSauvola gray_image = Inr res
          \<and> img_data res ! 0 = 255 \<and> img_data res ! 4 = 255)"
proof -
  have h: "0 < img_width gray_image" "0 < img_height gray_image"
    by (simp_all add: gray_image_def)
  have u: "uniform_luma (img_data gray_image) (img_width gray_image) (img_height gray_image) 128"
    by (auto simp: uniform_luma_def gray_image_def luma_def less_Suc_eq numeral_2_eq_2)
  from uniform_image_uniform_output [OF h u] obtain res where res:
    "processImageWithSauvola gray_image = Inr res"
    "\<forall>p<img_width gray_image * img_height gray_image.
           img_data res ! (p * 4) = 255 \<and> img_data res ! (p * 4 + 1) = 255
           \<and> img_data res ! (p * 4 + 2) = 255"
    by auto
  have p: "0 < img_width gray_image * img_height gray_image"
    "1 < img_width gray_image * img_height gray_image"
    by (simp_all add: gray_image_def)
  from res(2) [rule_format, OF p(1)] res(2) [rule_format, OF p(2)]
  have "img_data res ! 0 = 255" "img_data res ! 4 = 255"
    by simp_all
  then show ?thesis using h u res(1) by simp
qed

end
